theory Spec2Isabelle
  imports Main "HOL-Library.Product_Lexorder" "HOL-Library.AList"
begin

section \<open>Calendar dates\<close>

text \<open>
  The columns \<^verbatim>\<open>Falta\<close> and \<^verbatim>\<open>Fbaja\<close> hold calendar dates (the source prints them
  with \<^verbatim>\<open>%d/%m/%Y\<close>). A pandas \<^verbatim>\<open>Timestamp\<close> is modelled by its fields year, month
  and day: every timestamp is a date at midnight, a time of day is not modelled.
  Timestamps are compared chronologically, which on calendar dates is the lexicographic
  order of the triple.
\<close>

type_synonym timestamp = "int \<times> nat \<times> nat"

definition year :: "timestamp \<Rightarrow> int" where
  "year t = fst t"

definition month :: "timestamp \<Rightarrow> nat" where
  "month t = fst (snd t)"

definition day :: "timestamp \<Rightarrow> nat" where
  "day t = snd (snd t)"

definition is_leap :: "int \<Rightarrow> bool" where
  "is_leap y = (y mod 4 = 0 \<and> (y mod 400 = 0 \<or> y mod 100 \<noteq> 0))"

definition days_in_month :: "int \<Rightarrow> nat \<Rightarrow> nat" where
  "days_in_month y m =
     (if m = 2 then (if is_leap y then 29 else 28)
      else if m = 4 \<or> m = 6 \<or> m = 9 \<or> m = 11 then 30 else 31)"

text \<open>A \<^verbatim>\<open>Timestamp\<close> always is a date of the proleptic Gregorian calendar.\<close>

definition valid_date :: "timestamp \<Rightarrow> bool" where
  "valid_date t =
     (1 \<le> month t \<and> month t \<le> 12 \<and> 1 \<le> day t \<and> day t \<le> days_in_month (year t) (month t))"

definition days_before_year :: "int \<Rightarrow> int" where
  "days_before_year y = (y - 1) * 365 + (y - 1) div 4 - (y - 1) div 100 + (y - 1) div 400"

definition days_before_month :: "int \<Rightarrow> nat \<Rightarrow> int" where
  "days_before_month y m =
     [0, 31, 59, 90, 120, 151, 181, 212, 243, 273, 304, 334] ! (m - 1)
       + (if 2 < m \<and> is_leap y then 1 else 0)"

text \<open>The day number of a date; a \<^verbatim>\<open>Timedelta\<close> between two dates is the difference.\<close>

definition toordinal :: "timestamp \<Rightarrow> int" where
  "toordinal t = days_before_year (year t) + days_before_month (year t) (month t) + int (day t)"

text \<open>\<^verbatim>\<open>(df['Fbaja'] - df['Falta']).dt.days\<close>\<close>

definition dt_days :: "timestamp \<Rightarrow> timestamp \<Rightarrow> int" where
  "dt_days fbaja falta = toordinal fbaja - toordinal falta"

text \<open>\<^verbatim>\<open>Timestamp.replace(day=1)\<close>\<close>

definition replace_day1 :: "timestamp \<Rightarrow> timestamp" where
  "replace_day1 t = (year t, month t, 1)"


section \<open>Strings\<close>

text \<open>
  \<^verbatim>\<open>str.zfill(width)\<close>: zeros are inserted on the left, after a leading sign, until
  the string has the width.
\<close>

definition zfill :: "nat \<Rightarrow> string \<Rightarrow> string" where
  "zfill width s =
     (if width \<le> length s then s
      else (case s of
              c # rest \<Rightarrow>
                if c = CHR ''+'' \<or> c = CHR ''-''
                then c # replicate (width - length s) CHR ''0'' @ rest
                else replicate (width - length s) CHR ''0'' @ s
            | [] \<Rightarrow> replicate width CHR ''0''))"

text \<open>\<^verbatim>\<open>str.strip()\<close>, on the whitespace characters of ASCII.\<close>

definition isspace :: "char \<Rightarrow> bool" where
  "isspace c = (let n = (of_char c :: nat) in (9 \<le> n \<and> n \<le> 13) \<or> (28 \<le> n \<and> n \<le> 32))"

definition strip :: "string \<Rightarrow> string" where
  "strip s = rev (dropWhile isspace (rev (dropWhile isspace s)))"


section \<open>The data frame\<close>

text \<open>
  A cell of the sheet read by \<^verbatim>\<open>pd.read_excel\<close>: missing (NaN, None, NaT), text, an
  integer or a date.
\<close>

datatype cell = NA | Texto string | Entero int | FechaHora timestamp

record raw_row =
  r_DNI :: cell
  r_CATEGORIA :: cell
  r_Falta :: cell
  r_Fbaja :: cell


text \<open>A row of the frame that \<^verbatim>\<open>load_data\<close> returns.\<close>

record contrato =
  DNI :: string
  CATEGORIA :: string
  Falta :: timestamp
  Fbaja :: timestamp
  Duracion :: int

text \<open>
  \<^verbatim>\<open>pd.to_datetime(column, errors='coerce')\<close> on one cell: a missing cell is NaT, a date
  is itself, and what pandas makes of a text or a number (a date, or NaT when it
  cannot be parsed) is the parameter \<open>coerce\<close>.
\<close>

definition to_datetime :: "(cell \<Rightarrow> timestamp option) \<Rightarrow> cell \<Rightarrow> timestamp option" where
  "to_datetime coerce c = (case c of NA \<Rightarrow> None | FechaHora t \<Rightarrow> Some t | _ \<Rightarrow> coerce c)"

text \<open>
  \<^verbatim>\<open>astype(str)\<close> on one cell: a text is itself, the printed form of a number or a date
  is the parameter \<open>repr\<close>.
\<close>

definition astype_str :: "(cell \<Rightarrow> string) \<Rightarrow> cell \<Rightarrow> string" where
  "astype_str repr c = (case c of Texto s \<Rightarrow> s | _ \<Rightarrow> repr c)"


section \<open>load\_data\<close>

text \<open>
  \<^verbatim>\<open>df.dropna(subset=['DNI', 'CATEGORIA', 'Falta', 'Fbaja'])\<close>, on a row and its two
  converted dates: the row is kept when none of the four is missing.
\<close>

definition dropna :: "raw_row \<times> timestamp option \<times> timestamp option
    \<Rightarrow> (raw_row \<times> timestamp \<times> timestamp) option" where
  "dropna x =
     (case x of
        (r, Some falta, Some fbaja) \<Rightarrow>
          if r_DNI r \<noteq> NA \<and> r_CATEGORIA r \<noteq> NA then Some (r, falta, fbaja) else None
      | _ \<Rightarrow> None)"

text \<open>The columns \<^verbatim>\<open>DNI\<close>, \<^verbatim>\<open>CATEGORIA\<close> and \<^verbatim>\<open>Duracion\<close> of a kept row.\<close>

definition normaliza :: "(cell \<Rightarrow> string) \<Rightarrow> raw_row \<times> timestamp \<times> timestamp \<Rightarrow> contrato" where
  "normaliza repr x =
     (case x of (r, falta, fbaja) \<Rightarrow>
        \<lparr>DNI = zfill 9 (astype_str repr (r_DNI r)),
         CATEGORIA = strip (astype_str repr (r_CATEGORIA r)),
         Falta = falta, Fbaja = fbaja,
         Duracion = dt_days fbaja falta\<rparr>)"

text \<open>The body of the \<^verbatim>\<open>try\<close> block after the columns were found, row by row.\<close>

definition procesa :: "(cell \<Rightarrow> timestamp option) \<Rightarrow> (cell \<Rightarrow> string) \<Rightarrow> raw_row list
    \<Rightarrow> contrato list" where
  "procesa coerce repr rs =
     filter (\<lambda>c. 0 \<le> Duracion c \<and> Duracion c \<le> 10000)
       (map (normaliza repr)
          (List.map_filter dropna
             (map (\<lambda>r. (r, to_datetime coerce (r_Falta r), to_datetime coerce (r_Fbaja r))) rs)))"




section \<open>Month starts: \<^verbatim>\<open>pd.date_range(start, end, freq='MS')\<close>\<close>

datatype error = ValueError

text \<open>
  The offset \<^verbatim>\<open>MonthBegin\<close> of pandas. \<open>shift_month\<close> moves a date by a number of
  months to the first day of the month it reaches; \<open>roll_convention\<close> adjusts the
  number of months for a date that is not a month start.
\<close>

definition shift_month :: "timestamp \<Rightarrow> int \<Rightarrow> timestamp" where
  "shift_month stamp months =
     (let dy = (int (month stamp) + months) div 12;
          m = (int (month stamp) + months) mod 12
      in if m = 0 then (year stamp + (dy - 1), 12, 1) else (year stamp + dy, nat m, 1))"

definition roll_convention :: "nat \<Rightarrow> int \<Rightarrow> nat \<Rightarrow> int" where
  "roll_convention other n compare =
     (if 0 < n \<and> other < compare then n - 1
      else if n \<le> 0 \<and> compare < other then n + 1
      else n)"

definition MonthBegin_apply :: "int \<Rightarrow> timestamp \<Rightarrow> timestamp" where
  "MonthBegin_apply n other = shift_month other (roll_convention (day other) n 1)"

definition is_on_offset :: "timestamp \<Rightarrow> bool" where
  "is_on_offset t = (day t = 1)"

definition rollforward :: "timestamp \<Rightarrow> timestamp" where
  "rollforward t = (if is_on_offset t then t else MonthBegin_apply 1 t)"

definition rollback :: "timestamp \<Rightarrow> timestamp" where
  "rollback t = (if is_on_offset t then t else MonthBegin_apply (- 1) t)"

text \<open>
  The generator of \<^verbatim>\<open>date_range\<close> for an offset that is not a fixed duration: from
  \<open>cur\<close>, it yields and applies the offset while \<open>cur \<le> end\<close>, and raises when the
  offset does not move forward. \<open>rank\<close> only serves its termination proof.
\<close>

definition rank :: "timestamp \<Rightarrow> int" where
  "rank t = 2 * (12 * year t + int (min (month t) 12)) + (if 1 \<le> day t then 1 else 0)"

lemma shift_month_fields:
  "1 \<le> month (shift_month t k) \<and> month (shift_month t k) \<le> 12 \<and> day (shift_month t k) = 1"
proof -
  have "0 \<le> (int (month t) + k) mod 12" "(int (month t) + k) mod 12 < 12" by simp_all
  then show ?thesis
    by (auto simp add: shift_month_def Let_def month_def day_def)
qed

lemma rank_less:
  assumes "cur < nxt" "1 \<le> month nxt" "month nxt \<le> 12" "day nxt = 1"
  shows "rank cur < rank nxt"
proof -
  obtain y m d where c: "cur = (y, m, d)" by (cases cur) auto
  obtain y' m' d' where n: "nxt = (y', m', d')" by (cases nxt) auto
  from assms n have f: "1 \<le> m'" "m' \<le> 12" "d' = 1" by (simp_all add: month_def day_def)
  from assms(1) c n consider "y < y'" | "y = y'" "m < m'" | "y = y'" "m = m'" "d < d'"
    by (auto simp add: order.order_iff_strict)
  then show ?thesis
  proof cases
    case 1 then show ?thesis using f by (auto simp add: rank_def c n year_def month_def day_def min_def)
  next
    case 2 then show ?thesis using f by (auto simp add: rank_def c n year_def month_def day_def min_def)
  next
    case 3 then show ?thesis using f by (auto simp add: rank_def c n year_def month_def day_def min_def)
  qed
qed

lemma rank_le:
  assumes "cur \<le> e"
  shows "rank cur \<le> 2 * (12 * year e + int (month e)) + 1"
proof -
  obtain y m d where c: "cur = (y, m, d)" by (cases cur) auto
  obtain y' m' d' where n: "e = (y', m', d')" by (cases e) auto
  from assms c n consider "y < y'" | "y = y'" "m \<le> m'"
    by (auto simp add: order.order_iff_strict)
  then show ?thesis
    by cases (auto simp add: rank_def c n year_def month_def day_def min_def)
qed

function generate_range :: "timestamp \<Rightarrow> timestamp \<Rightarrow> error + timestamp list" where
  "generate_range cur end =
     (if cur \<le> end then
        (if cur = end then Inr [cur]
         else
           (let next_date = MonthBegin_apply 1 cur
            in if next_date \<le> cur then Inl ValueError
               else (case generate_range next_date end of
                       Inl e \<Rightarrow> Inl e
                     | Inr rest \<Rightarrow> Inr (cur # rest))))
      else Inr [])"
  by pat_completeness auto
termination
proof (relation "measure (\<lambda>(cur, e). nat (2 * (12 * year e + int (month e)) + 2 - rank cur))")
  show "wf (measure (\<lambda>(cur, e). nat (2 * (12 * year e + int (month e)) + 2 - rank cur)))"
    by simp
next
  fix cur e :: timestamp and nxt
  assume le: "cur \<le> e" and nx: "nxt = MonthBegin_apply 1 cur" and gt: "\<not> nxt \<le> cur"
  have "rank cur < rank nxt"
    using gt shift_month_fields[of cur "roll_convention (day cur) 1 1"]
    by (intro rank_less) (simp_all add: nx MonthBegin_apply_def)
  moreover note rank_le[OF le]
  ultimately show "((nxt, e), (cur, e))
      \<in> measure (\<lambda>(cur, e). nat (2 * (12 * year e + int (month e)) + 2 - rank cur))"
    by simp
qed


declare generate_range.simps [simp del]

text \<open>
  \<^verbatim>\<open>pd.date_range(start=..., end=..., freq='MS')\<close>. A NaT bound raises
  \<^verbatim>\<open>ValueError\<close>; a start that is not a month start is rolled forward, otherwise an
  end that is not one is rolled back; an end before the start gives the empty range.
\<close>

definition date_range_MS :: "timestamp option \<Rightarrow> timestamp option \<Rightarrow> error + timestamp list" where
  "date_range_MS start end =
     (case (start, end) of
        (Some s, Some e) \<Rightarrow>
          (let s' = (if is_on_offset s then s else rollforward s);
               e' = (if is_on_offset s \<and> \<not> is_on_offset e then rollback e else e)
           in if e' < s' then Inr [] else generate_range s' e')
      | _ \<Rightarrow> Inl ValueError)"


section \<open>calculate\_active\_contracts\_by\_month\<close>

text \<open>\<^verbatim>\<open>Series.min()\<close> and \<^verbatim>\<open>Series.max()\<close>: NaT (here \<open>None\<close>) on an empty column.\<close>

definition series_min :: "timestamp list \<Rightarrow> timestamp option" where
  "series_min xs = (case xs of [] \<Rightarrow> None | x # rest \<Rightarrow> Some (fold min rest x))"

definition series_max :: "timestamp list \<Rightarrow> timestamp option" where
  "series_max xs = (case xs of [] \<Rightarrow> None | x # rest \<Rightarrow> Some (fold max rest x))"

text \<open>\<^verbatim>\<open>df[df['CATEGORIA'].isin(categorias_seleccionadas)]\<close>\<close>

definition isin :: "contrato list \<Rightarrow> string list \<Rightarrow> contrato list" where
  "isin df categorias_seleccionadas = filter (\<lambda>r. CATEGORIA r \<in> set categorias_seleccionadas) df"

text \<open>\<^verbatim>\<open>df_filtrado[df_filtrado['CATEGORIA'] == categoria]\<close>\<close>

definition de_categoria :: "contrato list \<Rightarrow> string \<Rightarrow> contrato list" where
  "de_categoria df_filtrado categoria = filter (\<lambda>r. CATEGORIA r = categoria) df_filtrado"

text \<open>
  The months of the range: \<^verbatim>\<open>fecha_min.replace(day=1)\<close> to
  \<^verbatim>\<open>fecha_max.replace(day=1)\<close>; \<^verbatim>\<open>NaT.replace\<close> is NaT.
\<close>

definition meses_de :: "contrato list \<Rightarrow> error + timestamp list" where
  "meses_de df_filtrado =
     (let fecha_min = series_min (map Falta df_filtrado);
          fecha_max = series_max (map Fbaja df_filtrado)
      in date_range_MS (map_option replace_day1 fecha_min) (map_option replace_day1 fecha_max))"

text \<open>The contracts of \<open>df_cat\<close> that are active at \<open>mes\<close>.\<close>

definition activos :: "contrato list \<Rightarrow> timestamp \<Rightarrow> nat" where
  "activos df_cat mes = length (filter (\<lambda>r. Falta r \<le> mes \<and> mes \<le> Fbaja r) df_cat)"

record serie =
  meses :: "timestamp list"
  contratos :: "nat list"

text \<open>
  The dictionary \<^verbatim>\<open>resultados\<close> keeps its keys in the order of their first
  insertion; it is an association list, and \<open>AList.update\<close> is the assignment
  \<^verbatim>\<open>resultados[categoria] = ...\<close>.
\<close>

definition calculate_active_contracts_by_month ::
    "contrato list option \<Rightarrow> string list \<Rightarrow> error + (string \<times> serie) list" where
  "calculate_active_contracts_by_month df categorias_seleccionadas =
     (case df of
        None \<Rightarrow> Inr []
      | Some d \<Rightarrow>
          if d = [] then Inr []
          else
            (let df_filtrado = isin d categorias_seleccionadas
             in case meses_de df_filtrado of
                  Inl e \<Rightarrow> Inl e
                | Inr ms \<Rightarrow>
                    Inr (fold
                          (\<lambda>categoria resultados.
                             AList.update categoria
                               \<lparr>meses = ms,
                                contratos = map (activos (de_categoria df_filtrado categoria)) ms\<rparr>
                               resultados)
                          categorias_seleccionadas [])))"


section \<open>create\_timeline\_chart\<close>

text \<open>
  A bar of the chart: the contract it shows (its dates are the two ends of the bar, the
  other fields are in the hover text), its height \<^verbatim>\<open>y_position\<close> and the index of
  its colour in the palette \<^verbatim>\<open>Set3\<close> of twelve colours.
\<close>

record traza =
  traza_contrato :: contrato
  traza_y :: nat
  traza_color :: nat

text \<open>\<^verbatim>\<open>Series.unique()\<close>: the values in the order of their first appearance.\<close>

definition unique :: "'a list \<Rightarrow> 'a list" where
  "unique xs = rev (remdups (rev xs))"

text \<open>
  The loop over the persons of a category. A row of \<open>contrato\<close> has both dates (rows
  with NaT were dropped by \<open>load_data\<close>), so the test \<^verbatim>\<open>pd.isna\<close> never skips one.
  The position advances once per person, after the person's contracts.
\<close>

fun loop_dni :: "string list \<Rightarrow> contrato list \<Rightarrow> nat \<Rightarrow> nat \<times> traza list \<Rightarrow> nat \<times> traza list" where
  "loop_dni [] df_cat i st = st"
| "loop_dni (dni # dnis) df_cat i (y_position, fig) =
     loop_dni dnis df_cat i
       (y_position + 1,
        fig @ map (\<lambda>contrato. \<lparr>traza_contrato = contrato, traza_y = y_position,
                                 traza_color = i mod 12\<rparr>)
                (filter (\<lambda>r. DNI r = dni) df_cat))"

text \<open>
  The loop over \<^verbatim>\<open>enumerate(categorias_seleccionadas)\<close>; the state is
  \<^verbatim>\<open>y_position\<close>, \<^verbatim>\<open>categoria_positions\<close> and the bars added so far.
\<close>

fun loop_categorias :: "(nat \<times> string) list \<Rightarrow> contrato list
    \<Rightarrow> nat \<times> (string \<times> nat) list \<times> traza list \<Rightarrow> nat \<times> (string \<times> nat) list \<times> traza list" where
  "loop_categorias [] df_filtrado st = st"
| "loop_categorias ((i, categoria) # rest) df_filtrado (y_position, categoria_positions, fig) =
     (let df_cat = de_categoria df_filtrado categoria
      in if df_cat = [] then loop_categorias rest df_filtrado (y_position, categoria_positions, fig)
         else
           (case loop_dni (unique (map DNI df_cat)) df_cat i (y_position, fig) of
              (y_position', fig') \<Rightarrow>
                loop_categorias rest df_filtrado
                  (y_position' + 2, AList.update categoria y_position categoria_positions, fig')))"

record figura =
  trazas :: "traza list"
  lineas_anuales :: "(timestamp \<times> nat) list"
  height :: nat
  ticktext :: "string list"

text \<open>
  \<^verbatim>\<open>create_timeline_chart\<close>. The vertical lines stand at January 1 of the years
  \<^verbatim>\<open>range(fecha_min.year + 1, fecha_max.year + 1)\<close> and reach up to the final
  \<^verbatim>\<open>y_position\<close>.
\<close>

definition create_timeline_chart :: "contrato list option \<Rightarrow> string list \<Rightarrow> figura option" where
  "create_timeline_chart df categorias_seleccionadas =
     (case df of
        None \<Rightarrow> None
      | Some d \<Rightarrow>
          if d = [] \<or> categorias_seleccionadas = [] then None
          else
            (let df_filtrado = isin d categorias_seleccionadas
             in if df_filtrado = [] then None
                else
                  (case loop_categorias (List.enumerate 0 categorias_seleccionadas) df_filtrado
                          (0, [], []) of
                     (y_position, categoria_positions, fig) \<Rightarrow>
                       Some \<lparr>trazas = fig,
                             lineas_anuales =
                               (case (series_min (map Falta df_filtrado),
                                      series_max (map Fbaja df_filtrado)) of
                                  (Some fecha_min, Some fecha_max) \<Rightarrow>
                                    map (\<lambda>a. ((a, 1, 1), y_position))
                                      [year fecha_min + 1 .. year fecha_max]
                                | _ \<Rightarrow> []),
                             height = max 600 (y_position * 15),
                             ticktext =
                               filter (\<lambda>cat. cat \<in> fst ` set categoria_positions)
                                 categorias_seleccionadas\<rparr>)))"


section \<open>create\_active\_contracts\_chart\<close>

record figura_activos =
  lineas :: "(string \<times> serie \<times> nat) list"
  cambios_de_anio :: "timestamp list"

text \<open>
  \<^verbatim>\<open>create_active_contracts_chart\<close>: one line per category, and a vertical line at
  January 1 of every year of the months of the first category but the first year
  (\<^verbatim>\<open>sorted(set(mes.year for mes in meses))[1:]\<close>).
\<close>

definition create_active_contracts_chart :: "(string \<times> serie) list \<Rightarrow> figura_activos option" where
  "create_active_contracts_chart datos_activos =
     (case datos_activos of
        [] \<Rightarrow> None
      | (primer_categoria, data) # _ \<Rightarrow>
          Some \<lparr>lineas = map (\<lambda>(i, (categoria, data)). (categoria, data, i mod 12))
                           (List.enumerate 0 datos_activos),
                cambios_de_anio =
                  map (\<lambda>a. (a, 1, 1)) (drop 1 (sort (remdups (map year (meses data)))))\<rparr>)"


section \<open>The calendar: day numbers grow with the date\<close>

lemma div_step:
  fixes y n :: int
  assumes "0 < n"
  shows "y div n = (y - 1) div n + (if y mod n = 0 then 1 else 0)"
proof (cases "y mod n = 0")
  case True
  have "y = n * (y div n)" using True by (metis add.right_neutral mult_div_mod_eq)
  then have "y - 1 = n * (y div n - 1) + (n - 1)" by (simp add: algebra_simps)
  then have "(y - 1) div n = y div n - 1"
    using assms by (intro int_div_pos_eq[where r = "n - 1"]) simp_all
  then show ?thesis using True by simp
next
  case False
  have r: "0 \<le> y mod n" "y mod n < n" using assms by simp_all
  have "y = n * (y div n) + y mod n" by simp
  then have "y - 1 = n * (y div n) + (y mod n - 1)" by simp
  then have "(y - 1) div n = y div n"
    using r False by (intro int_div_pos_eq[where r = "y mod n - 1"]) simp_all
  then show ?thesis using False by simp
qed

lemma days_before_year_Suc:
  "days_before_year (y + 1) = days_before_year y + (if is_leap y then 366 else 365)"
proof -
  have d: "(100::int) dvd 400" "(4::int) dvd 100" by simp_all
  have a: "y mod 100 = 0" if "y mod 400 = 0"
  proof -
    from that have "400 dvd y" by (simp only: mod_eq_0_iff_dvd)
    with d(1) have "100 dvd y" by (rule dvd_trans)
    then show ?thesis by (simp only: mod_eq_0_iff_dvd)
  qed
  have b: "y mod 4 = 0" if "y mod 100 = 0"
  proof -
    from that have "100 dvd y" by (simp only: mod_eq_0_iff_dvd)
    with d(2) have "4 dvd y" by (rule dvd_trans)
    then show ?thesis by (simp only: mod_eq_0_iff_dvd)
  qed
  have s4: "y div 4 = (y - 1) div 4 + (if y mod 4 = 0 then 1 else 0)"
    by (rule div_step) simp
  have s100: "y div 100 = (y - 1) div 100 + (if y mod 100 = 0 then 1 else 0)"
    by (rule div_step) simp
  have s400: "y div 400 = (y - 1) div 400 + (if y mod 400 = 0 then 1 else 0)"
    by (rule div_step) simp
  define q4 q100 q400 where "q4 = (y - 1) div 4" and "q100 = (y - 1) div 100"
    and "q400 = (y - 1) div 400"
  define e4 e100 e400 :: int where "e4 = (if y mod 4 = 0 then 1 else 0)"
    and "e100 = (if y mod 100 = 0 then 1 else 0)" and "e400 = (if y mod 400 = 0 then 1 else 0)"
  have n: "days_before_year (y + 1) = y * 365 + y div 4 - y div 100 + y div 400"
    by (simp add: days_before_year_def)
  have o: "days_before_year y = (y - 1) * 365 + q4 - q100 + q400"
    by (simp only: days_before_year_def q4_def q100_def q400_def)
  have "y div 4 = q4 + e4" "y div 100 = q100 + e100" "y div 400 = q400 + e400"
    using s4 s100 s400 by (simp_all only: q4_def q100_def q400_def e4_def e100_def e400_def)
  with n o have "days_before_year (y + 1) = days_before_year y + 365 + e4 - e100 + e400"
    by (simp only: algebra_simps)
  moreover have "365 + e4 - e100 + e400 = (if is_leap y then 366 else 365)"
  proof -
    define p4 p100 p400 where "p4 = (y mod 4 = 0)" and "p100 = (y mod 100 = 0)"
      and "p400 = (y mod 400 = 0)"
    have e: "e4 = (if p4 then 1 else 0)" "e100 = (if p100 then 1 else 0)"
      "e400 = (if p400 then 1 else 0)"
      by (simp_all only: e4_def e100_def e400_def p4_def p100_def p400_def)
    have l: "is_leap y = (p4 \<and> (p400 \<or> \<not> p100))"
      by (simp only: is_leap_def p4_def p100_def p400_def)
    have ab: "p400 \<longrightarrow> p100" "p100 \<longrightarrow> p4"
      unfolding p4_def p100_def p400_def using a b by blast+
    show ?thesis unfolding e l using ab
      by (cases p4; cases p100; cases p400) simp_all
  qed
  ultimately show ?thesis by linarith
qed

lemma days_before_year_mono_aux: "0 \<le> k \<Longrightarrow> days_before_year y + 365 * k \<le> days_before_year (y + k)"
proof (induction k rule: int_ge_induct)
  case base then show ?case by simp
next
  case (step i)
  have "days_before_year (y + (i + 1)) = days_before_year (y + i + 1)" by (simp add: add.assoc)
  also have "\<dots> \<ge> days_before_year (y + i) + 365" by (simp add: days_before_year_Suc)
  finally show ?case using step by simp
qed

lemma month_cases:
  assumes "1 \<le> m" "m \<le> (12::nat)"
  obtains "m = 1" | "m = 2" | "m = 3" | "m = 4" | "m = 5" | "m = 6" | "m = 7" | "m = 8"
    | "m = 9" | "m = 10" | "m = 11" | "m = 12"
proof -
  have "[1..<13] = [1,2,3,4,5,6,7,8,9,10,11,12::nat]" by code_simp
  moreover have "m \<in> set [1..<13]" using assms by simp
  ultimately have "m \<in> set [1,2,3,4,5,6,7,8,9,10,11,12::nat]" by simp
  then show ?thesis using that by auto
qed

lemma days_before_month_Suc:
  assumes "1 \<le> m" "m < 12"
  shows "days_before_month y (Suc m) = days_before_month y m + int (days_in_month y m)"
proof -
  from assms have "1 \<le> m" "m \<le> 12" by simp_all
  then show ?thesis using assms(2)
    by (cases m rule: month_cases) (simp_all add: days_before_month_def days_in_month_def)
qed

lemma days_before_month_bound:
  assumes "1 \<le> m" "m \<le> 12"
  shows "days_before_month y m + int (days_in_month y m) \<le> (if is_leap y then 366 else 365)"
  using assms
  by (cases m rule: month_cases) (simp_all add: days_before_month_def days_in_month_def)

lemma days_before_month_mono:
  assumes "1 \<le> m" "m < m'" "m' \<le> 12"
  shows "days_before_month y m + int (days_in_month y m) \<le> days_before_month y m'"
  using assms(2,1,3)
proof (induction m' rule: less_induct)
  case (less m')
  obtain k where k: "m' = Suc k" using less.prems by (cases m') auto
  show ?case
  proof (cases "m = k")
    case True
    then show ?thesis using days_before_month_Suc[of k y] less.prems k by simp
  next
    case False
    then have "m < k" using less.prems k by simp
    then have "days_before_month y m + int (days_in_month y m) \<le> days_before_month y k"
      using less.IH[of k] less.prems k by simp
    moreover have "days_before_month y (Suc k) = days_before_month y k + int (days_in_month y k)"
      using days_before_month_Suc[of k y] less.prems k \<open>m < k\<close> by simp
    ultimately show ?thesis using k by simp
  qed
qed

lemma toordinal_strict_mono:
  assumes "valid_date a" "valid_date b" "a < b"
  shows "toordinal a < toordinal b"
proof -
  obtain ya ma da where a: "a = (ya, ma, da)" by (cases a) auto
  obtain yb mb db where b: "b = (yb, mb, db)" by (cases b) auto
  from assms(1) a have va: "1 \<le> ma" "ma \<le> 12" "1 \<le> da" "da \<le> days_in_month ya ma"
    by (simp_all add: valid_date_def year_def month_def day_def)
  from assms(2) b have vb: "1 \<le> mb" "mb \<le> 12" "1 \<le> db" "db \<le> days_in_month yb mb"
    by (simp_all add: valid_date_def year_def month_def day_def)
  have ta: "toordinal a = days_before_year ya + days_before_month ya ma + int da"
    by (simp add: a toordinal_def year_def month_def day_def)
  have tb: "toordinal b = days_before_year yb + days_before_month yb mb + int db"
    by (simp add: b toordinal_def year_def month_def day_def)
  have nonneg: "0 \<le> days_before_month yb mb"
    using vb(1,2) by (cases mb rule: month_cases) (simp_all add: days_before_month_def)
  from assms(3) a b consider "ya < yb" | "ya = yb" "ma < mb" | "ya = yb" "ma = mb" "da < db"
    by (auto simp add: order.order_iff_strict)
  then show ?thesis
  proof cases
    case 1
    have "toordinal a \<le> days_before_year ya + (if is_leap ya then 366 else 365)"
      using days_before_month_bound[OF va(1,2), of ya] va(4) ta by simp
    also have "\<dots> = days_before_year (ya + 1)" by (simp add: days_before_year_Suc)
    also have "\<dots> \<le> days_before_year yb"
      using days_before_year_mono_aux[of "yb - (ya + 1)" "ya + 1"] 1 by simp
    also have "\<dots> < toordinal b" using tb nonneg vb(3) by simp
    finally show ?thesis .
  next
    case 2
    have "toordinal a \<le> days_before_year ya + (days_before_month ya ma + int (days_in_month ya ma))"
      using ta va(4) by simp
    also have "\<dots> \<le> days_before_year ya + days_before_month ya mb"
      using days_before_month_mono[OF va(1) 2(2) vb(2), of ya] by simp
    also have "\<dots> < toordinal b" using tb vb(3) 2(1) by simp
    finally show ?thesis .
  next
    case 3
    then show ?thesis using ta tb by simp
  qed
qed


section \<open>Properties of \<^verbatim>\<open>load_data\<close>\<close>




lemma dt_days_negative:
  assumes "valid_date s" "valid_date e" "e < s"
  shows "dt_days e s < 0"
  using toordinal_strict_mono[OF assms(2,1,3)] by (simp add: dt_days_def)






section \<open>The months of the range\<close>

text \<open>
  Months are numbered: month \<open>k\<close> is the month \<open>k mod 12 + 1\<close> of the year
  \<open>k div 12\<close>, and \<open>month_start k\<close> is its first day.
\<close>

definition month_index :: "timestamp \<Rightarrow> int" where
  "month_index t = 12 * year t + int (month t) - 1"

definition month_start :: "int \<Rightarrow> timestamp" where
  "month_start k = (k div 12, nat (k mod 12) + 1, 1)"

text \<open>
  In the words of the specification: one calendar month after a first of month, where
  January follows December in the next year.
\<close>

definition next_month_start :: "timestamp \<Rightarrow> timestamp" where
  "next_month_start t = (if month t = 12 then (year t + 1, 1, 1) else (year t, month t + 1, 1))"

text \<open>
  The dates of a validated frame: dates of the calendar, no contract ending before it
  starts. \<open>load_data\<close> returns such a frame (\<open>procesa_fechas_validas\<close> below).
\<close>

definition fechas_validas :: "contrato list \<Rightarrow> bool" where
  "fechas_validas df =
     list_all (\<lambda>r. valid_date (Falta r) \<and> valid_date (Fbaja r) \<and> Falta r \<le> Fbaja r) df"

lemma div12_eq:
  fixes a q r :: int
  assumes "a = 12 * q + r" "0 \<le> r" "r < 12"
  shows "a div 12 = q \<and> a mod 12 = r"
  using int_div_pos_eq[of a 12 q r] int_mod_pos_eq[of a 12 q r] assms by simp

lemma div12_split:
  fixes k :: int
  shows "k + 1 = 12 * (k div 12) + (k mod 12 + 1)"
  by simp

lemma div12_carry:
  fixes k d m :: int
  assumes "k + 1 = 12 * d + (m + 1)" "m = 11"
  shows "k + 1 = 12 * (d + 1) + 0"
  using assms by simp

lemma month_start_index:
  assumes "1 \<le> month t" "month t \<le> 12"
  shows "month_start (month_index t) = replace_day1 t"
proof -
  obtain y m d where t: "t = (y, m, d)" by (cases t) auto
  from assms t have m: "1 \<le> m" "m \<le> 12" by (simp_all add: month_def)
  have "12 * y + int m - 1 = 12 * y + (int m - 1)" by simp
  then have "(12 * y + int m - 1) div 12 = y \<and> (12 * y + int m - 1) mod 12 = int m - 1"
    using m by (intro div12_eq) simp_all
  then show ?thesis
    using m by (simp add: month_start_def month_index_def replace_day1_def t year_def month_def)
qed

lemma month_start_strict_mono: "a < b \<Longrightarrow> month_start a < month_start b"
proof -
  assume ab: "a < b"
  have "a div 12 \<le> b div 12" using ab by (intro zdiv_mono1) simp_all
  moreover have "a = 12 * (a div 12) + a mod 12" "b = 12 * (b div 12) + b mod 12" by simp_all
  ultimately have "a div 12 < b div 12 \<or> (a div 12 = b div 12 \<and> a mod 12 < b mod 12)"
    using ab by linarith
  moreover have "0 \<le> a mod 12" "0 \<le> b mod 12" by simp_all
  ultimately show ?thesis by (auto simp add: month_start_def)
qed

lemma month_start_mono: "a \<le> b \<Longrightarrow> month_start a \<le> month_start b"
  using month_start_strict_mono[of a b] by (cases "a = b") auto

lemma month_start_less_iff: "month_start a < month_start b \<longleftrightarrow> a < b"
  using month_start_strict_mono[of a b] month_start_mono[of b a] by (auto simp add: not_le[symmetric])

lemma div12_next:
  fixes k :: int
  assumes "k mod 12 \<noteq> 11"
  shows "(k + 1) div 12 = k div 12" "(k + 1) mod 12 = k mod 12 + 1"
proof -
  define r where "r = k mod 12"
  have c: "0 \<le> r" "r < 12" "r \<noteq> 11" using assms by (simp_all add: r_def)
  then have b: "0 \<le> r + 1" "r + 1 < 12" by linarith+
  have h: "k + 1 = 12 * (k div 12) + (r + 1)" unfolding r_def by (rule div12_split)
  have e: "(k + 1) div 12 = k div 12 \<and> (k + 1) mod 12 = r + 1"
    by (rule div12_eq[OF h b])
  show "(k + 1) div 12 = k div 12" by (rule e[THEN conjunct1])
  show "(k + 1) mod 12 = k mod 12 + 1" using e[THEN conjunct2] by (simp only: r_def)
qed

lemma div12_next_carry:
  fixes k :: int
  assumes "k mod 12 = 11"
  shows "(k + 1) div 12 = k div 12 + 1" "(k + 1) mod 12 = 0"
proof -
  from assms have h: "k + 1 = 12 * (k div 12 + 1) + 0" by (intro div12_carry[OF div12_split])
  have e: "(k + 1) div 12 = k div 12 + 1 \<and> (k + 1) mod 12 = 0"
    by (rule div12_eq[OF h]) simp_all
  show "(k + 1) div 12 = k div 12 + 1" by (rule e[THEN conjunct1])
  show "(k + 1) mod 12 = 0" by (rule e[THEN conjunct2])
qed

lemma month_start_next: "next_month_start (month_start k) = month_start (k + 1)"
proof -
  have c: "0 \<le> k mod 12" "k mod 12 < 12" by simp_all
  show ?thesis
  proof (cases "k mod 12 = 11")
    case True
    with div12_next_carry[OF True] show ?thesis
      by (simp add: next_month_start_def month_start_def month_def year_def)
  next
    case False
    have "nat (k mod 12) + 1 \<noteq> 12" using False c by linarith
    with div12_next[OF False] show ?thesis using c
      by (simp add: next_month_start_def month_start_def month_def year_def nat_add_distrib)
  qed
qed

lemma MonthBegin_apply_month_start: "MonthBegin_apply 1 (month_start k) = month_start (k + 1)"
proof -
  have c: "0 \<le> k mod 12" "k mod 12 < 12" by simp_all
  define r where "r = k mod 12"
  have a: "MonthBegin_apply 1 (month_start k)
      = (if (r + 2) mod 12 = 0 then (k div 12 + ((r + 2) div 12 - 1), 12, 1)
         else (k div 12 + (r + 2) div 12, nat ((r + 2) mod 12), 1))"
    using c by (simp add: MonthBegin_apply_def roll_convention_def shift_month_def
        month_start_def year_def month_def day_def Let_def r_def add.commute)
  have b: "month_start (k + 1) = ((k + 1) div 12, nat ((k + 1) mod 12) + 1, 1)"
    by (simp add: month_start_def)
  consider "r = 11" | "r = 10" | "r < 10" using c r_def by linarith
  then show ?thesis
  proof cases
    case 1
    then have "k mod 12 = 11" by (simp only: r_def)
    from div12_next_carry[OF this] 1 show ?thesis unfolding a b by simp
  next
    case 2
    then have "k mod 12 \<noteq> 11" by (simp add: r_def)
    from div12_next[OF this] 2 show ?thesis unfolding a b by (simp add: r_def[symmetric])
  next
    case 3
    then have "k mod 12 \<noteq> 11" by (simp add: r_def)
    note k = div12_next[OF this]
    from 3 c have "(r + 2) div 12 = 0" "(r + 2) mod 12 = r + 2" unfolding r_def by simp_all
    with 3 c k show ?thesis unfolding a b by (simp add: r_def nat_add_distrib)
  qed
qed

lemma generate_range_month_start:
  "a \<le> b \<Longrightarrow> generate_range (month_start a) (month_start b) = Inr (map month_start [a..b])"
proof (induction "nat (b - a)" arbitrary: a)
  case 0
  then have "a = b" by simp
  then show ?case by (simp add: generate_range.simps[of "month_start b"])
next
  case (Suc n)
  then have ab: "a < b" by linarith
  have lt: "month_start a < month_start b" by (rule month_start_strict_mono[OF ab])
  have nx: "MonthBegin_apply 1 (month_start a) = month_start (a + 1)"
    by (rule MonthBegin_apply_month_start)
  have gt: "\<not> month_start (a + 1) \<le> month_start a"
    using month_start_strict_mono[of a "a + 1"] by (simp add: not_le)
  have ih: "generate_range (month_start (a + 1)) (month_start b) = Inr (map month_start [a + 1..b])"
    using Suc by (intro Suc.hyps(1)) linarith+
  have "[a..b] = a # [a + 1..b]" using ab by (simp add: upto_rec1)
  then show ?case
    using lt gt ih by (subst generate_range.simps) (simp add: nx Let_def less_le)
qed

lemma series_min_Min: "xs \<noteq> [] \<Longrightarrow> series_min xs = Some (Min (set xs))"
proof (cases xs)
  case (Cons a list)
  then show ?thesis using Min.set_eq_fold[of a list] by (simp add: series_min_def)
qed simp

lemma series_max_Max: "xs \<noteq> [] \<Longrightarrow> series_max xs = Some (Max (set xs))"
proof (cases xs)
  case (Cons a list)
  then show ?thesis using Max.set_eq_fold[of a list] by (simp add: series_max_def)
qed simp

lemma date_range_MS_month_start:
  "date_range_MS (Some (month_start a)) (Some (month_start b)) = Inr (map month_start [a..b])"
proof -
  have o: "is_on_offset (month_start k)" for k
    by (simp add: is_on_offset_def month_start_def day_def)
  show ?thesis
  proof (cases "a \<le> b")
    case True
    then have "\<not> month_start b < month_start a" by (simp add: month_start_less_iff)
    with True show ?thesis
      by (simp add: date_range_MS_def o generate_range_month_start)
  next
    case False
    then have "month_start b < month_start a" by (simp add: month_start_less_iff)
    with False show ?thesis by (simp add: date_range_MS_def o)
  qed
qed

lemma month_index_mono:
  assumes "s \<le> t" "month s \<le> 12" "1 \<le> month t"
  shows "month_index s \<le> month_index t"
proof -
  obtain y m d where s: "s = (y, m, d)" by (cases s) auto
  obtain y' m' d' where t: "t = (y', m', d')" by (cases t) auto
  from assms(1) s t consider "y < y'" | "y = y'" "m \<le> m'"
    by (auto simp add: order.order_iff_strict)
  then show ?thesis using assms(2,3)
    by cases (simp_all add: month_index_def s t year_def month_def)
qed

lemma extremos:
  assumes "df \<noteq> []" "fechas_validas df"
  shows "valid_date (Min (Falta ` set df))" "valid_date (Max (Fbaja ` set df))"
    "Min (Falta ` set df) \<le> Max (Fbaja ` set df)"
proof -
  have ne: "Falta ` set df \<noteq> {}" "Fbaja ` set df \<noteq> {}" using assms(1) by simp_all
  have "Min (Falta ` set df) \<in> Falta ` set df" using ne by (intro Min_in) simp_all
  then obtain r where r: "r \<in> set df" "Min (Falta ` set df) = Falta r" by auto
  have "Max (Fbaja ` set df) \<in> Fbaja ` set df" using ne by (intro Max_in) simp_all
  then obtain r' where r': "r' \<in> set df" "Max (Fbaja ` set df) = Fbaja r'" by auto
  from assms(2) r(1) r'(1) have v: "valid_date (Falta r)" "Falta r \<le> Fbaja r" "valid_date (Fbaja r')"
    by (auto simp add: fechas_validas_def list_all_iff)
  show "valid_date (Min (Falta ` set df))" using v r by simp
  show "valid_date (Max (Fbaja ` set df))" using v r' by simp
  have "Fbaja r \<le> Max (Fbaja ` set df)" using r(1) by (intro Max_ge) simp_all
  with v(2) r(2) show "Min (Falta ` set df) \<le> Max (Fbaja ` set df)" by simp
qed

lemma meses_de_closed:
  assumes "df \<noteq> []" "fechas_validas df"
  shows "meses_de df = Inr (map month_start
      [month_index (Min (Falta ` set df)) .. month_index (Max (Fbaja ` set df))])"
proof -
  from extremos[OF assms] have v: "valid_date (Min (Falta ` set df))"
    "valid_date (Max (Fbaja ` set df))" by simp_all
  have "meses_de df = date_range_MS (Some (replace_day1 (Min (Falta ` set df))))
      (Some (replace_day1 (Max (Fbaja ` set df))))"
    using assms(1) by (simp add: meses_de_def series_min_Min series_max_Max)
  also have "replace_day1 (Min (Falta ` set df)) = month_start (month_index (Min (Falta ` set df)))"
    using v(1) by (simp add: month_start_index valid_date_def)
  also have "replace_day1 (Max (Fbaja ` set df)) = month_start (month_index (Max (Fbaja ` set df)))"
    using v(2) by (simp add: month_start_index valid_date_def)
  finally show ?thesis by (simp only: date_range_MS_month_start)
qed

lemma replace_day1_mono: "s \<le> t \<Longrightarrow> replace_day1 s \<le> replace_day1 t"
  by (cases s; cases t) (auto simp add: replace_day1_def year_def month_def)

lemma replace_day1_min: "replace_day1 (min s t) = min (replace_day1 s) (replace_day1 t)"
  by (metis replace_day1_mono min.absorb1 min.absorb2 linear)

lemma replace_day1_max: "replace_day1 (max s t) = max (replace_day1 s) (replace_day1 t)"
  by (metis replace_day1_mono max.absorb1 max.absorb2 linear)

lemma replace_day1_fold_min:
  "fold min (map (\<lambda>r. replace_day1 (f r)) rs) (replace_day1 x)
     = replace_day1 (fold min (map f rs) x)"
  by (induction rs arbitrary: x) (simp_all add: replace_day1_min[symmetric])

lemma replace_day1_fold_max:
  "fold max (map (\<lambda>r. replace_day1 (f r)) rs) (replace_day1 x)
     = replace_day1 (fold max (map f rs) x)"
  by (induction rs arbitrary: x) (simp_all add: replace_day1_max[symmetric])

lemma replace_day1_idem: "replace_day1 (replace_day1 t) = replace_day1 t"
  by (simp add: replace_day1_def year_def month_def)

lemma meses_de_floor:
  "meses_de (map (\<lambda>r. r\<lparr>Falta := replace_day1 (Falta r), Fbaja := replace_day1 (Fbaja r)\<rparr>) df)
     = meses_de df"
proof (cases df)
  case Nil
  then show ?thesis by simp
next
  case (Cons r rs)
  then show ?thesis
    by (simp add: meses_de_def series_min_def series_max_def comp_def
        replace_day1_fold_min replace_day1_fold_max replace_day1_idem)
qed

lemma procesa_fechas_validas:
  assumes "\<And>c t. to_datetime coerce c = Some t \<Longrightarrow> valid_date t"
  shows "fechas_validas (procesa coerce repr rs)"
proof -
  have "valid_date (Falta c) \<and> valid_date (Fbaja c) \<and> Falta c \<le> Fbaja c"
    if "c \<in> set (procesa coerce repr rs)" for c
  proof -
    from that have v: "valid_date (Falta c)" "valid_date (Fbaja c)"
      and r: "0 \<le> dt_days (Fbaja c) (Falta c)"
      by (auto simp add: procesa_def map_filter_def dropna_def normaliza_def
          split: option.splits if_splits dest: assms)
    have "\<not> Fbaja c < Falta c" using dt_days_negative[OF v] r by auto
    with v show ?thesis by simp
  qed
  then show ?thesis by (simp add: fechas_validas_def list_all_iff)
qed

text \<open>
  Claim C5. For a non-empty validated frame the months of the range are computed
  without error and are not empty; the first is the first day of the month of the
  earliest start, the last is the first day of the month of the latest end, each month
  is followed by the first day of the next calendar month (January of the next year
  after December), the sequence is strictly ascending, and it is the same when every
  date of the frame is moved to the first day of its month.
\<close>

theorem month_grid:
  assumes "df \<noteq> []" "fechas_validas df"
  shows "\<exists>ms. meses_de df = Inr ms \<and> ms \<noteq> []
      \<and> hd ms = (year (Min (Falta ` set df)), month (Min (Falta ` set df)), 1)
      \<and> last ms = (year (Max (Fbaja ` set df)), month (Max (Fbaja ` set df)), 1)
      \<and> (\<forall>k. Suc k < length ms \<longrightarrow> ms ! Suc k = next_month_start (ms ! k))
      \<and> sorted_wrt (<) ms
      \<and> meses_de (map (\<lambda>r. r\<lparr>Falta := replace_day1 (Falta r), Fbaja := replace_day1 (Fbaja r)\<rparr>) df)
          = Inr ms"
proof -
  define a b where "a = month_index (Min (Falta ` set df))"
    and "b = month_index (Max (Fbaja ` set df))"
  define ms where "ms = map month_start [a..b]"
  note ex = extremos[OF assms]
  have ab: "a \<le> b"
    unfolding a_def b_def using ex by (intro month_index_mono) (simp_all add: valid_date_def)
  have m: "meses_de df = Inr ms"
    unfolding ms_def a_def b_def by (rule meses_de_closed[OF assms])
  have ne: "ms \<noteq> []" using ab by (simp add: ms_def)
  have up: "[a..b] = a # [a + 1..b]" using ab by (simp add: upto_rec1)
  have "hd ms = month_start a" by (simp add: ms_def up)
  also have "\<dots> = replace_day1 (Min (Falta ` set df))"
    unfolding a_def using ex(1) by (simp add: month_start_index valid_date_def)
  finally have h: "hd ms = (year (Min (Falta ` set df)), month (Min (Falta ` set df)), 1)"
    by (simp add: replace_day1_def)
  have "last ms = month_start b" using ab by (simp add: ms_def last_map upto_rec2)
  also have "\<dots> = replace_day1 (Max (Fbaja ` set df))"
    unfolding b_def using ex(2) by (simp add: month_start_index valid_date_def)
  finally have l: "last ms = (year (Max (Fbaja ` set df)), month (Max (Fbaja ` set df)), 1)"
    by (simp add: replace_day1_def)
  have st: "ms ! Suc k = next_month_start (ms ! k)" if "Suc k < length ms" for k
  proof -
    from that have k: "a + int (Suc k) \<le> b" by (simp add: ms_def)
    then have "ms ! Suc k = month_start (a + int (Suc k))" using that
      by (simp add: ms_def)
    moreover have "a + int (Suc k) = a + int k + 1" by simp
    moreover have "ms ! k = month_start (a + int k)" using that k by (simp add: ms_def)
    ultimately show ?thesis by (simp only: month_start_next)
  qed
  have "sorted_wrt (<) [a..b]" by (simp add: strict_sorted_iff)
  then have so: "sorted_wrt (<) ms"
    unfolding ms_def sorted_wrt_map
    by (rule sorted_wrt_mono_rel[rotated]) (simp add: month_start_strict_mono)
  have fl: "meses_de (map (\<lambda>r. r\<lparr>Falta := replace_day1 (Falta r),
      Fbaja := replace_day1 (Fbaja r)\<rparr>) df) = Inr ms"
    by (simp only: meses_de_floor m)
  from m ne h l st so fl show ?thesis by blast
qed

theorem month_grid_witness:
  "fechas_validas
     [\<lparr>DNI = ''000000001'', CATEGORIA = ''A'', Falta = (2019, 11, 15), Fbaja = (2019, 12, 31),
       Duracion = 46\<rparr>,
      \<lparr>DNI = ''000000002'', CATEGORIA = ''A'', Falta = (2019, 12, 7), Fbaja = (2020, 2, 3),
       Duracion = 58\<rparr>]
   \<and> meses_de
     [\<lparr>DNI = ''000000001'', CATEGORIA = ''A'', Falta = (2019, 11, 15), Fbaja = (2019, 12, 31),
       Duracion = 46\<rparr>,
      \<lparr>DNI = ''000000002'', CATEGORIA = ''A'', Falta = (2019, 12, 7), Fbaja = (2020, 2, 3),
       Duracion = 58\<rparr>]
     = Inr [(2019, 11, 1), (2019, 12, 1), (2020, 1, 1), (2020, 2, 1)]
   \<and> (\<exists>ms. meses_de
     [\<lparr>DNI = ''000000001'', CATEGORIA = ''A'', Falta = (2019, 11, 15), Fbaja = (2019, 12, 31),
       Duracion = 46\<rparr>,
      \<lparr>DNI = ''000000002'', CATEGORIA = ''A'', Falta = (2019, 12, 7), Fbaja = (2020, 2, 3),
       Duracion = 58\<rparr>] = Inr ms
      \<and> ms \<noteq> [] \<and> hd ms = (2019, 11, 1) \<and> last ms = (2020, 2, 1) \<and> sorted_wrt (<) ms)"
proof -
  define df0 where "df0 =
     [\<lparr>DNI = ''000000001'', CATEGORIA = ''A'', Falta = (2019, 11, 15), Fbaja = (2019, 12, 31),
       Duracion = 46\<rparr>,
      \<lparr>DNI = ''000000002'', CATEGORIA = ''A'', Falta = (2019, 12, 7), Fbaja = (2020, 2, 3),
       Duracion = 58\<rparr>]"
  have v: "fechas_validas df0"
    by (simp add: df0_def fechas_validas_def valid_date_def days_in_month_def is_leap_def
        year_def month_def day_def)
  have n: "df0 \<noteq> []" by (simp add: df0_def)
  have e: "meses_de df0 = Inr [(2019, 11, 1), (2019, 12, 1), (2020, 1, 1), (2020, 2, 1)]"
    unfolding df0_def by code_simp
  have mn: "Min (Falta ` set df0) = (2019, 11, 15)" "Max (Fbaja ` set df0) = (2020, 2, 3)"
    by (simp_all add: df0_def)
  from month_grid[OF n v] have "\<exists>ms. meses_de df0 = Inr ms
      \<and> ms \<noteq> [] \<and> hd ms = (2019, 11, 1) \<and> last ms = (2020, 2, 1) \<and> sorted_wrt (<) ms"
    by (auto simp add: mn year_def month_def)
  with v e show ?thesis unfolding df0_def by blast
qed


section \<open>Properties of \<^verbatim>\<open>calculate_active_contracts_by_month\<close>\<close>

lemma map_of_fold_update:
  "map_of (fold (\<lambda>k res. AList.update k (f k) res) ks acc) c
     = (if c \<in> set ks then Some (f c) else map_of acc c)"
  by (induction ks arbitrary: acc) (simp_all add: update_conv')

lemma calculate_entry:
  assumes "calculate_active_contracts_by_month (Some df) cats = Inr res" "df \<noteq> []" "c \<in> set cats"
  shows "\<exists>ms. meses_de (isin df cats) = Inr ms
      \<and> map_of res c = Some \<lparr>meses = ms, contratos = map (activos (de_categoria (isin df cats) c)) ms\<rparr>"
proof (cases "meses_de (isin df cats)")
  case (Inl e)
  with assms show ?thesis by (simp add: calculate_active_contracts_by_month_def)
next
  case (Inr ms)
  with assms(1,2) have "res = fold (\<lambda>categoria resultados. AList.update categoria
      \<lparr>meses = ms, contratos = map (activos (de_categoria (isin df cats) categoria)) ms\<rparr>
      resultados) cats []"
    by (simp add: calculate_active_contracts_by_month_def)
  then show ?thesis using Inr assms(3)
    by (simp add: map_of_fold_update[where f = "\<lambda>k. \<lparr>meses = ms, contratos = map (activos (de_categoria (isin df cats) k)) ms\<rparr>"])
qed

lemma de_categoria_isin:
  "c \<in> set cats \<Longrightarrow> de_categoria (isin df cats) c = de_categoria df c"
  by (auto simp add: de_categoria_def isin_def intro: filter_cong)

text \<open>
  Claim C1. When the aggregation returns on a non-empty frame, every selected category
  \<open>c\<close> has a series over the months of the range, and its count at a month \<open>m\<close> is
  the number of contracts \<open>i\<close> of the frame of category \<open>c\<close> with
  \<open>Falta i \<le> m\<close> and \<open>m \<le> Fbaja i\<close>: a contract is counted at \<open>m\<close> exactly when
  its closed interval contains \<open>m\<close>.
\<close>

theorem containment_count:
  assumes "calculate_active_contracts_by_month (Some df) cats = Inr res" "df \<noteq> []" "c \<in> set cats"
  shows "\<exists>s. map_of res c = Some s
      \<and> meses_de (isin df cats) = Inr (meses s)
      \<and> contratos s =
          map (\<lambda>m. length (filter (\<lambda>i. CATEGORIA i = c \<and> Falta i \<le> m \<and> m \<le> Fbaja i) df))
            (meses s)"
proof -
  from calculate_entry[OF assms] obtain ms where ms: "meses_de (isin df cats) = Inr ms"
    and e: "map_of res c
      = Some \<lparr>meses = ms, contratos = map (activos (de_categoria (isin df cats) c)) ms\<rparr>"
    by blast
  have "activos (de_categoria (isin df cats) c) m
      = length (filter (\<lambda>i. CATEGORIA i = c \<and> Falta i \<le> m \<and> m \<le> Fbaja i) df)" for m
  proof -
    have "activos (de_categoria (isin df cats) c) m = activos (de_categoria df c) m"
      by (simp only: de_categoria_isin[OF assms(3)])
    also have "\<dots> = length (filter (\<lambda>i. CATEGORIA i = c \<and> Falta i \<le> m \<and> m \<le> Fbaja i) df)"
      by (simp add: activos_def de_categoria_def conj_commute conj_left_commute)
    finally show ?thesis .
  qed
  with ms e show ?thesis by simp
qed

theorem containment_count_witness:
  "calculate_active_contracts_by_month
     (Some [\<lparr>DNI = ''000000001'', CATEGORIA = ''A'', Falta = (2020, 1, 10), Fbaja = (2020, 3, 5),
             Duracion = 55\<rparr>,
            \<lparr>DNI = ''000000002'', CATEGORIA = ''A'', Falta = (2020, 2, 1), Fbaja = (2020, 2, 20),
             Duracion = 19\<rparr>]) [''A'']
     = Inr [(''A'', \<lparr>meses = [(2020, 1, 1), (2020, 2, 1), (2020, 3, 1)], contratos = [0, 2, 1]\<rparr>)]
   \<and> (\<exists>s. map_of [(''A'', \<lparr>meses = [(2020, 1, 1), (2020, 2, 1), (2020, 3, 1)],
                            contratos = [0, 2, 1]\<rparr>)] ''A'' = Some s
        \<and> contratos s =
            map (\<lambda>m. length (filter (\<lambda>i. CATEGORIA i = ''A'' \<and> Falta i \<le> m \<and> m \<le> Fbaja i)
                  [\<lparr>DNI = ''000000001'', CATEGORIA = ''A'', Falta = (2020, 1, 10),
                    Fbaja = (2020, 3, 5), Duracion = 55\<rparr>,
                   \<lparr>DNI = ''000000002'', CATEGORIA = ''A'', Falta = (2020, 2, 1),
                    Fbaja = (2020, 2, 20), Duracion = 19\<rparr>]))
              (meses s))"
proof -
  have e: "calculate_active_contracts_by_month
     (Some [\<lparr>DNI = ''000000001'', CATEGORIA = ''A'', Falta = (2020, 1, 10), Fbaja = (2020, 3, 5),
             Duracion = 55\<rparr>,
            \<lparr>DNI = ''000000002'', CATEGORIA = ''A'', Falta = (2020, 2, 1), Fbaja = (2020, 2, 20),
             Duracion = 19\<rparr>]) [''A'']
     = Inr [(''A'', \<lparr>meses = [(2020, 1, 1), (2020, 2, 1), (2020, 3, 1)], contratos = [0, 2, 1]\<rparr>)]"
    by code_simp
  from containment_count[OF e, of "''A''"] show ?thesis using e by auto
qed

text \<open>
  Claim C3. The aggregation returns the empty dictionary when there is no frame
  (\<^verbatim>\<open>load_data\<close> failed) and when the frame is empty, alike. On a frame with one
  contract of category A it raises \<^verbatim>\<open>ValueError\<close> when the selection is empty, and
  when it selects only a category without contracts: the range of months is asked from
  NaT to NaT. On the same inputs \<^verbatim>\<open>create_timeline_chart\<close> returns \<^verbatim>\<open>None\<close>.
\<close>

theorem calculate_raises_on_empty_selection:
  "calculate_active_contracts_by_month None cats = Inr []
   \<and> calculate_active_contracts_by_month (Some []) cats = Inr []
   \<and> calculate_active_contracts_by_month
     (Some [\<lparr>DNI = ''000000001'', CATEGORIA = ''A'', Falta = (2020, 1, 10), Fbaja = (2020, 3, 5),
             Duracion = 55\<rparr>]) [] = Inl ValueError
   \<and> calculate_active_contracts_by_month
     (Some [\<lparr>DNI = ''000000001'', CATEGORIA = ''A'', Falta = (2020, 1, 10), Fbaja = (2020, 3, 5),
             Duracion = 55\<rparr>]) [''B''] = Inl ValueError
   \<and> create_timeline_chart
     (Some [\<lparr>DNI = ''000000001'', CATEGORIA = ''A'', Falta = (2020, 1, 10), Fbaja = (2020, 3, 5),
             Duracion = 55\<rparr>]) [] = None
   \<and> create_timeline_chart
     (Some [\<lparr>DNI = ''000000001'', CATEGORIA = ''A'', Falta = (2020, 1, 10), Fbaja = (2020, 3, 5),
             Duracion = 55\<rparr>]) [''B''] = None"
  by (simp add: calculate_active_contracts_by_month_def create_timeline_chart_def isin_def
      meses_de_def series_min_def series_max_def date_range_MS_def)

text \<open>
  Claim C7, as stated, fails: with one contract of category A and the selection A, B,
  the series of B is not empty; it holds a zero for each of the three months.
\<close>

theorem zero_series_counterexample:
  "calculate_active_contracts_by_month
     (Some [\<lparr>DNI = ''000000001'', CATEGORIA = ''A'', Falta = (2020, 1, 10), Fbaja = (2020, 3, 5),
             Duracion = 55\<rparr>]) [''A'', ''B'']
   = Inr [(''A'', \<lparr>meses = [(2020, 1, 1), (2020, 2, 1), (2020, 3, 1)], contratos = [0, 1, 1]\<rparr>),
          (''B'', \<lparr>meses = [(2020, 1, 1), (2020, 2, 1), (2020, 3, 1)], contratos = [0, 0, 0]\<rparr>)]"
  by code_simp

text \<open>
  Claim C7, amended. When the aggregation returns on a non-empty frame, a selected
  category without contracts in the frame has a series over the months of the range
  shared by all the categories, with the count zero at every month.
\<close>

theorem zero_series:
  assumes "calculate_active_contracts_by_month (Some df) cats = Inr res" "df \<noteq> []" "c \<in> set cats"
    and "de_categoria df c = []"
  shows "\<exists>s. map_of res c = Some s
      \<and> meses_de (isin df cats) = Inr (meses s)
      \<and> contratos s = replicate (length (meses s)) 0"
proof -
  from calculate_entry[OF assms(1-3)] obtain ms where ms: "meses_de (isin df cats) = Inr ms"
    and e: "map_of res c
      = Some \<lparr>meses = ms, contratos = map (activos (de_categoria (isin df cats) c)) ms\<rparr>"
    by blast
  have "map (activos (de_categoria (isin df cats) c)) ms = replicate (length ms) 0"
    by (simp add: de_categoria_isin[OF assms(3)] assms(4) activos_def[abs_def] map_replicate_const)
  with ms e show ?thesis by simp
qed

theorem zero_series_witness:
  "calculate_active_contracts_by_month
     (Some [\<lparr>DNI = ''000000001'', CATEGORIA = ''A'', Falta = (2020, 1, 10), Fbaja = (2020, 3, 5),
             Duracion = 55\<rparr>]) [''A'', ''B'']
   = Inr [(''A'', \<lparr>meses = [(2020, 1, 1), (2020, 2, 1), (2020, 3, 1)], contratos = [0, 1, 1]\<rparr>),
          (''B'', \<lparr>meses = [(2020, 1, 1), (2020, 2, 1), (2020, 3, 1)], contratos = [0, 0, 0]\<rparr>)]
   \<and> de_categoria [\<lparr>DNI = ''000000001'', CATEGORIA = ''A'', Falta = (2020, 1, 10),
                     Fbaja = (2020, 3, 5), Duracion = 55\<rparr>] ''B'' = []
   \<and> (\<exists>s. map_of [(''A'', \<lparr>meses = [(2020, 1, 1), (2020, 2, 1), (2020, 3, 1)],
                            contratos = [0, 1, 1]\<rparr>),
                    (''B'', \<lparr>meses = [(2020, 1, 1), (2020, 2, 1), (2020, 3, 1)],
                            contratos = [0, 0, 0]\<rparr>)] ''B'' = Some s
        \<and> contratos s = replicate (length (meses s)) 0)"
proof -
  have e: "calculate_active_contracts_by_month
     (Some [\<lparr>DNI = ''000000001'', CATEGORIA = ''A'', Falta = (2020, 1, 10), Fbaja = (2020, 3, 5),
             Duracion = 55\<rparr>]) [''A'', ''B'']
   = Inr [(''A'', \<lparr>meses = [(2020, 1, 1), (2020, 2, 1), (2020, 3, 1)], contratos = [0, 1, 1]\<rparr>),
          (''B'', \<lparr>meses = [(2020, 1, 1), (2020, 2, 1), (2020, 3, 1)], contratos = [0, 0, 0]\<rparr>)]"
    by code_simp
  have d: "de_categoria [\<lparr>DNI = ''000000001'', CATEGORIA = ''A'', Falta = (2020, 1, 10),
                     Fbaja = (2020, 3, 5), Duracion = 55\<rparr>] ''B'' = []"
    by (simp add: de_categoria_def)
  from zero_series[OF e _ _ d] show ?thesis using e d by auto
qed


section \<open>The changes of year\<close>

lemma in_set_update:
  "(k', v') \<in> set (AList.update k v al) \<Longrightarrow> (k', v') = (k, v) \<or> (k', v') \<in> set al"
  by (induction al) (auto split: if_splits)

lemma fold_update_values:
  assumes "\<And>k v. (k, v) \<in> set acc \<Longrightarrow> P v" "\<And>k. P (f k)"
    and "(k, v) \<in> set (fold (\<lambda>k res. AList.update k (f k) res) ks acc)"
  shows "P v"
  using assms
proof (induction ks arbitrary: acc)
  case Nil
  then show ?case by auto
next
  case (Cons a ks)
  show ?case
  proof (rule Cons.IH[of "AList.update a (f a) acc"])
    show "P v'" if "(k', v') \<in> set (AList.update a (f a) acc)" for k' v'
      using in_set_update[OF that] Cons.prems(1,2) by auto
    show "P (f k')" for k' by (rule Cons.prems(2))
    show "(k, v) \<in> set (fold (\<lambda>k res. AList.update k (f k) res) ks (AList.update a (f a) acc))"
      using Cons.prems(3) by simp
  qed
qed

lemma fold_update_nonempty:
  "acc \<noteq> [] \<or> ks \<noteq> [] \<Longrightarrow> fold (\<lambda>k res. AList.update k (f k) res) ks acc \<noteq> []"
  by (induction ks arbitrary: acc) auto

lemma calculate_hd:
  assumes "df \<noteq> []" "cats \<noteq> []" "meses_de (isin df cats) = Inr ms"
  shows "\<exists>k s rest. calculate_active_contracts_by_month (Some df) cats = Inr ((k, s) # rest)
      \<and> meses s = ms"
proof -
  define f where "f = (\<lambda>categoria. \<lparr>meses = ms,
      contratos = map (activos (de_categoria (isin df cats) categoria)) ms\<rparr>)"
  define res where "res = fold (\<lambda>k r. AList.update k (f k) r) cats []"
  have c: "calculate_active_contracts_by_month (Some df) cats = Inr res"
    using assms(1,3) by (simp add: calculate_active_contracts_by_month_def res_def f_def)
  have "res \<noteq> []" unfolding res_def using assms(2) by (intro fold_update_nonempty) simp
  then obtain k s rest where r: "res = (k, s) # rest" by (cases res) auto
  have "meses s = ms"
  proof (rule fold_update_values[where P = "\<lambda>v. meses v = ms" and f = f and acc = "[]" and ks = cats])
    show "(k, s) \<in> set (fold (\<lambda>k res. AList.update k (f k) res) cats [])"
      using r by (simp add: res_def)
  qed (simp_all add: f_def)
  with c r show ?thesis by blast
qed

lemma extremos_calendario:
  assumes "df \<noteq> []" "list_all (\<lambda>r. valid_date (Falta r) \<and> valid_date (Fbaja r)) df"
  shows "valid_date (Min (Falta ` set df))" "valid_date (Max (Fbaja ` set df))"
proof -
  have ne: "Falta ` set df \<noteq> {}" "Fbaja ` set df \<noteq> {}" using assms(1) by simp_all
  have "Min (Falta ` set df) \<in> Falta ` set df" using ne by (intro Min_in) simp_all
  then show "valid_date (Min (Falta ` set df))" using assms(2) by (auto simp add: list_all_iff)
  have "Max (Fbaja ` set df) \<in> Fbaja ` set df" using ne by (intro Max_in) simp_all
  then show "valid_date (Max (Fbaja ` set df))" using assms(2) by (auto simp add: list_all_iff)
qed

lemma meses_de_calendario:
  assumes "df \<noteq> []" "list_all (\<lambda>r. valid_date (Falta r) \<and> valid_date (Fbaja r)) df"
  shows "meses_de df = Inr (map month_start
      [month_index (Min (Falta ` set df)) .. month_index (Max (Fbaja ` set df))])"
proof -
  from extremos_calendario[OF assms] have v: "valid_date (Min (Falta ` set df))"
    "valid_date (Max (Fbaja ` set df))" by simp_all
  have "meses_de df = date_range_MS (Some (replace_day1 (Min (Falta ` set df))))
      (Some (replace_day1 (Max (Fbaja ` set df))))"
    using assms(1) by (simp add: meses_de_def series_min_Min series_max_Max)
  also have "replace_day1 (Min (Falta ` set df)) = month_start (month_index (Min (Falta ` set df)))"
    using v(1) by (simp add: month_start_index valid_date_def)
  also have "replace_day1 (Max (Fbaja ` set df)) = month_start (month_index (Max (Fbaja ` set df)))"
    using v(2) by (simp add: month_start_index valid_date_def)
  finally show ?thesis by (simp only: date_range_MS_month_start)
qed

lemma years_of_months:
  "drop 1 (sort (remdups (map (\<lambda>k. k div 12) [a..b]))) = [a div 12 + 1 .. b div (12::int)]"
proof (cases "a \<le> b")
  case False
  then have "b div 12 \<le> a div 12" by (intro zdiv_mono1) simp_all
  moreover have "[a..b] = []" using False by simp
  ultimately show ?thesis by simp
next
  case True
  have "set (map (\<lambda>k. k div 12) [a..b]) = {a div 12 .. b div 12}"
  proof (intro equalityI subsetI)
    fix q assume "q \<in> set (map (\<lambda>k. k div 12) [a..b])"
    then obtain k where "a \<le> k" "k \<le> b" "q = k div 12" by auto
    then show "q \<in> {a div 12 .. b div 12}" by (auto intro: zdiv_mono1)
  next
    fix q assume q: "q \<in> {a div 12 .. b div 12}"
    show "q \<in> set (map (\<lambda>k. k div 12) [a..b])"
    proof (cases "q = a div 12")
      case True
      then show ?thesis using \<open>a \<le> b\<close> by (auto intro!: image_eqI[where x = a])
    next
      case False
      with q have "a div 12 < q" "q \<le> b div 12" by auto
      then have "a < 12 * q" "12 * q \<le> b" by linarith+
      moreover have "(12 * q) div 12 = q" by simp
      ultimately show ?thesis by (auto intro!: image_eqI[where x = "12 * q"])
    qed
  qed
  then have "set (sort (remdups (map (\<lambda>k. k div 12) [a..b]))) = set [a div 12 .. b div 12]"
    by simp
  moreover have "sorted (sort (remdups (map (\<lambda>k. k div 12) [a..b])))" by simp
  moreover have "distinct (sort (remdups (map (\<lambda>k. k div 12) [a..b])))" by simp
  ultimately have "sort (remdups (map (\<lambda>k. k div 12) [a..b])) = [a div 12 .. b div 12]"
    by (intro sorted_distinct_set_unique) simp_all
  moreover have "a div 12 \<le> b div 12" using True by (intro zdiv_mono1) simp_all
  ultimately show ?thesis by (simp add: upto_rec1)
qed

lemma jan1_between:
  assumes "valid_date lo" "valid_date hi"
  shows "(lo < (Y, 1, 1) \<and> (Y, 1, 1) \<le> hi) \<longleftrightarrow> (year lo < Y \<and> Y \<le> year hi)"
proof -
  obtain y m d where lo: "lo = (y, m, d)" by (cases lo) auto
  obtain y' m' d' where hi: "hi = (y', m', d')" by (cases hi) auto
  from assms lo hi have b: "1 \<le> m" "1 \<le> d" "1 \<le> m'" "1 \<le> d'"
    by (simp_all add: valid_date_def month_def day_def)
  have "\<not> (m, d) < (1, 1)" using b by simp
  then have l: "lo < (Y, 1, 1) \<longleftrightarrow> y < Y" unfolding lo by (simp only: less_prod_simp) auto
  have "(1, 1) \<le> (m', d')" using b by auto
  then have h: "(Y, 1, 1) \<le> hi \<longleftrightarrow> Y \<le> y'" unfolding hi by (simp only: less_eq_prod_simp) auto
  show ?thesis unfolding l h by (simp add: lo hi year_def)
qed

lemma jan1_set:
  assumes "valid_date lo" "valid_date hi"
  shows "set (map (\<lambda>a. (a, 1, 1)) [year lo + 1 .. year hi])
      = {t. \<exists>Y. t = (Y, 1::nat, 1::nat) \<and> lo < t \<and> t \<le> hi}"
proof (rule set_eqI)
  fix t :: timestamp
  have "t \<in> set (map (\<lambda>a. (a, 1, 1)) [year lo + 1 .. year hi])
      \<longleftrightarrow> (\<exists>Y. t = (Y, 1, 1) \<and> year lo < Y \<and> Y \<le> year hi)"
    by (simp add: image_iff Bex_def) (metis zless_imp_add1_zle add1_zle_eq)
  also have "\<dots> \<longleftrightarrow> (\<exists>Y. t = (Y, 1, 1) \<and> lo < (Y, 1, 1) \<and> (Y, 1, 1) \<le> hi)"
    by (simp only: jan1_between[OF assms] conj_assoc)
  also have "\<dots> \<longleftrightarrow> (\<exists>Y. t = (Y, 1, 1) \<and> lo < t \<and> t \<le> hi)"
    by blast
  finally show "t \<in> set (map (\<lambda>a. (a, 1, 1)) [year lo + 1 .. year hi])
      \<longleftrightarrow> t \<in> {t. \<exists>Y. t = (Y, 1, 1) \<and> lo < t \<and> t \<le> hi}"
    by (simp only: mem_Collect_eq)
qed

lemma jan1_sorted: "sorted_wrt (<) (map (\<lambda>a. (a, 1::nat, 1::nat)) [i..j])"
proof -
  have "sorted_wrt (<) [i..j]" by (simp add: strict_sorted_iff)
  then show ?thesis
    unfolding sorted_wrt_map by (rule sorted_wrt_mono_rel[rotated]) simp
qed

lemma timeline_lineas:
  assumes "isin df cats \<noteq> []"
  shows "\<exists>fig. create_timeline_chart (Some df) cats = Some fig
      \<and> map fst (lineas_anuales fig)
          = map (\<lambda>a. (a, 1, 1))
              [year (Min (Falta ` set (isin df cats))) + 1 .. year (Max (Fbaja ` set (isin df cats)))]"
proof -
  from assms have ne: "df \<noteq> []" "cats \<noteq> []" by (auto simp add: isin_def)
  obtain y pos fg where l: "loop_categorias (List.enumerate 0 cats) (isin df cats) (0, [], [])
      = (y, pos, fg)" by (cases "loop_categorias (List.enumerate 0 cats) (isin df cats) (0, [], [])") auto
  show ?thesis
    using assms ne
    by (simp add: create_timeline_chart_def Let_def l series_min_Min series_max_Max comp_def)
qed

lemma activos_lineas:
  assumes "isin df cats \<noteq> []"
    "list_all (\<lambda>r. valid_date (Falta r) \<and> valid_date (Fbaja r)) (isin df cats)"
  shows "\<exists>datos fig. calculate_active_contracts_by_month (Some df) cats = Inr datos
      \<and> create_active_contracts_chart datos = Some fig
      \<and> cambios_de_anio fig
          = map (\<lambda>a. (a, 1, 1))
              [year (Min (Falta ` set (isin df cats))) + 1 .. year (Max (Fbaja ` set (isin df cats)))]"
proof -
  define lo hi where "lo = Min (Falta ` set (isin df cats))"
    and "hi = Max (Fbaja ` set (isin df cats))"
  from assms(1) have ne: "df \<noteq> []" "cats \<noteq> []" by (auto simp add: isin_def)
  from extremos_calendario[OF assms] have v: "valid_date lo" "valid_date hi"
    by (simp_all add: lo_def hi_def)
  have m: "meses_de (isin df cats) = Inr (map month_start [month_index lo .. month_index hi])"
    unfolding lo_def hi_def by (rule meses_de_calendario[OF assms])
  from calculate_hd[OF ne m] obtain k s rest where
    c: "calculate_active_contracts_by_month (Some df) cats = Inr ((k, s) # rest)"
    and s: "meses s = map month_start [month_index lo .. month_index hi]" by blast
  have y: "year (month_start i) = i div 12" for i by (simp add: month_start_def year_def)
  have d: "month_index lo div 12 = year lo" "month_index hi div 12 = year hi"
    using month_start_index[of lo] month_start_index[of hi] v
    by (simp_all add: valid_date_def month_start_def replace_day1_def)
  have "drop 1 (sort (remdups (map year (meses s)))) = [year lo + 1 .. year hi]"
    using years_of_months[of "month_index lo" "month_index hi"]
    by (simp add: s comp_def y d)
  then have "cambios_de_anio (the (create_active_contracts_chart ((k, s) # rest)))
      = map (\<lambda>a. (a, 1, 1)) [year lo + 1 .. year hi]"
    by (simp add: create_active_contracts_chart_def)
  moreover have "create_active_contracts_chart ((k, s) # rest)
      = Some (the (create_active_contracts_chart ((k, s) # rest)))"
    by (simp add: create_active_contracts_chart_def)
  ultimately show ?thesis
    unfolding lo_def hi_def
    by (intro exI[of _ "(k, s) # rest"]
        exI[of _ "the (create_active_contracts_chart ((k, s) # rest))"] conjI c)
qed

text \<open>
  Claim C8. On a frame with calendar dates and at least one contract of a selected
  category, both charts are drawn, and in each of them the vertical lines stand, in
  ascending order, exactly at the dates January 1 that lie strictly after the earliest
  start and on or before the latest end of the selected contracts; in particular no line
  is drawn when no January 1 lies in that range.
\<close>

theorem year_boundaries:
  assumes "isin df cats \<noteq> []"
    "list_all (\<lambda>r. valid_date (Falta r) \<and> valid_date (Fbaja r)) (isin df cats)"
  shows "\<exists>fig datos fig_activos.
      create_timeline_chart (Some df) cats = Some fig
      \<and> calculate_active_contracts_by_month (Some df) cats = Inr datos
      \<and> create_active_contracts_chart datos = Some fig_activos
      \<and> sorted_wrt (<) (map fst (lineas_anuales fig))
      \<and> set (map fst (lineas_anuales fig))
          = {t. \<exists>Y. t = (Y, 1, 1) \<and> Min (Falta ` set (isin df cats)) < t
                \<and> t \<le> Max (Fbaja ` set (isin df cats))}
      \<and> sorted_wrt (<) (cambios_de_anio fig_activos)
      \<and> set (cambios_de_anio fig_activos)
          = {t. \<exists>Y. t = (Y, 1, 1) \<and> Min (Falta ` set (isin df cats)) < t
                \<and> t \<le> Max (Fbaja ` set (isin df cats))}"
proof -
  from timeline_lineas[OF assms(1)] obtain fig where
    f: "create_timeline_chart (Some df) cats = Some fig"
    and fl: "map fst (lineas_anuales fig) = map (\<lambda>a. (a, 1, 1))
      [year (Min (Falta ` set (isin df cats))) + 1 .. year (Max (Fbaja ` set (isin df cats)))]"
    by blast
  from activos_lineas[OF assms] obtain datos fa where
    c: "calculate_active_contracts_by_month (Some df) cats = Inr datos"
    and a: "create_active_contracts_chart datos = Some fa"
    and al: "cambios_de_anio fa = map (\<lambda>a. (a, 1, 1))
      [year (Min (Falta ` set (isin df cats))) + 1 .. year (Max (Fbaja ` set (isin df cats)))]"
    by blast
  note v = extremos_calendario[OF assms]
  have s1: "sorted_wrt (<) (map fst (lineas_anuales fig))" unfolding fl by (rule jan1_sorted)
  have s2: "sorted_wrt (<) (cambios_de_anio fa)" unfolding al by (rule jan1_sorted)
  have e1: "set (map fst (lineas_anuales fig))
      = {t. \<exists>Y. t = (Y, 1, 1) \<and> Min (Falta ` set (isin df cats)) < t
            \<and> t \<le> Max (Fbaja ` set (isin df cats))}"
    unfolding fl by (rule jan1_set[OF v])
  have e2: "set (cambios_de_anio fa)
      = {t. \<exists>Y. t = (Y, 1, 1) \<and> Min (Falta ` set (isin df cats)) < t
            \<and> t \<le> Max (Fbaja ` set (isin df cats))}"
    unfolding al by (rule jan1_set[OF v])
  show ?thesis
    by (intro exI[of _ fig] exI[of _ datos] exI[of _ fa] conjI f c a s1 s2 e1 e2)
qed

theorem year_boundaries_witness:
  "isin [\<lparr>DNI = ''000000001'', CATEGORIA = ''A'', Falta = (2019, 11, 15), Fbaja = (2021, 3, 5),
          Duracion = 476\<rparr>] [''A''] \<noteq> []
   \<and> (\<exists>fig datos fig_activos.
      create_timeline_chart
        (Some [\<lparr>DNI = ''000000001'', CATEGORIA = ''A'', Falta = (2019, 11, 15),
                Fbaja = (2021, 3, 5), Duracion = 476\<rparr>]) [''A''] = Some fig
      \<and> calculate_active_contracts_by_month
        (Some [\<lparr>DNI = ''000000001'', CATEGORIA = ''A'', Falta = (2019, 11, 15),
                Fbaja = (2021, 3, 5), Duracion = 476\<rparr>]) [''A''] = Inr datos
      \<and> create_active_contracts_chart datos = Some fig_activos
      \<and> set (map fst (lineas_anuales fig))
          = {t. \<exists>Y. t = (Y, 1, 1) \<and> (2019, 11, 15) < t \<and> t \<le> (2021, 3, 5)}
      \<and> set (cambios_de_anio fig_activos)
          = {t. \<exists>Y. t = (Y, 1, 1) \<and> (2019, 11, 15) < t \<and> t \<le> (2021, 3, 5)})
   \<and> map fst (lineas_anuales (the (create_timeline_chart
        (Some [\<lparr>DNI = ''000000001'', CATEGORIA = ''A'', Falta = (2019, 11, 15),
                Fbaja = (2021, 3, 5), Duracion = 476\<rparr>]) [''A''])))
      = [(2020, 1, 1), (2021, 1, 1)]"
proof -
  define df0 where "df0 = [\<lparr>DNI = ''000000001'', CATEGORIA = ''A'', Falta = (2019, 11, 15),
    Fbaja = (2021, 3, 5), Duracion = 476\<rparr>]"
  have i: "isin df0 [''A''] = df0" by (simp add: df0_def isin_def)
  have n: "isin df0 [''A''] \<noteq> []" by (simp add: df0_def isin_def)
  have v: "list_all (\<lambda>r. valid_date (Falta r) \<and> valid_date (Fbaja r)) (isin df0 [''A''])"
    by (simp add: df0_def isin_def valid_date_def days_in_month_def year_def month_def day_def)
  have mn: "Min (Falta ` set df0) = (2019, 11, 15)" "Max (Fbaja ` set df0) = (2021, 3, 5)"
    by (simp_all add: df0_def)
  have l: "map fst (lineas_anuales (the (create_timeline_chart (Some df0) [''A''])))
      = [(2020, 1, 1), (2021, 1, 1)]"
    unfolding df0_def by code_simp
  from year_boundaries[OF n v] have "\<exists>fig datos fig_activos.
      create_timeline_chart (Some df0) [''A''] = Some fig
      \<and> calculate_active_contracts_by_month (Some df0) [''A''] = Inr datos
      \<and> create_active_contracts_chart datos = Some fig_activos
      \<and> set (map fst (lineas_anuales fig))
          = {t. \<exists>Y. t = (Y, 1, 1) \<and> (2019, 11, 15) < t \<and> t \<le> (2021, 3, 5)}
      \<and> set (cambios_de_anio fig_activos)
          = {t. \<exists>Y. t = (Y, 1, 1) \<and> (2019, 11, 15) < t \<and> t \<le> (2021, 3, 5)}"
    unfolding i mn by blast
  with n l show ?thesis unfolding df0_def by (intro conjI)
qed


section \<open>Properties of \<^verbatim>\<open>create_timeline_chart\<close>\<close>

text \<open>
  The persons of a category, in the order in which the loop meets them; the rows that a
  category takes, separator included (none for a category without contracts); and the
  row at which the block of the \<open>j\<close>-th selected category starts.
\<close>

definition personas :: "contrato list \<Rightarrow> string \<Rightarrow> string list" where
  "personas df categoria = unique (map DNI (de_categoria df categoria))"

definition alto :: "contrato list \<Rightarrow> string \<Rightarrow> nat" where
  "alto df categoria =
     (if de_categoria df categoria = [] then 0 else length (personas df categoria) + 2)"

definition inicio :: "contrato list \<Rightarrow> string list \<Rightarrow> nat \<Rightarrow> nat" where
  "inicio df categorias j = sum_list (map (alto df) (take j categorias))"

text \<open>The bars of the block of the \<open>j\<close>-th category, when the loop starts at row \<open>y\<close>.\<close>

definition en_bloque :: "contrato list \<Rightarrow> (nat \<times> string) list \<Rightarrow> nat \<Rightarrow> nat \<Rightarrow> traza \<Rightarrow> bool" where
  "en_bloque df ics y j t =
     (\<exists>k<length (personas df (snd (ics ! j))). \<exists>c\<in>set (de_categoria df (snd (ics ! j))).
        DNI c = personas df (snd (ics ! j)) ! k
        \<and> t = \<lparr>traza_contrato = c, traza_y = y + inicio df (map snd ics) j + k,
               traza_color = fst (ics ! j) mod 12\<rparr>)"

lemma unique_set [simp]: "set (unique xs) = set xs"
  by (simp add: unique_def)

lemma unique_distinct [simp]: "distinct (unique xs)"
  by (simp add: unique_def)

lemma ex_less_Cons:
  "(\<exists>j<length (x # xs). P j) \<longleftrightarrow> P 0 \<or> (\<exists>j<length xs. P (Suc j))"
proof
  assume "\<exists>j<length (x # xs). P j"
  then obtain j where j: "j < length (x # xs)" "P j" by blast
  show "P 0 \<or> (\<exists>j<length xs. P (Suc j))"
  proof (cases j)
    case 0
    with j show ?thesis by simp
  next
    case (Suc n)
    with j show ?thesis by auto
  qed
next
  assume "P 0 \<or> (\<exists>j<length xs. P (Suc j))"
  then show "\<exists>j<length (x # xs). P j" by auto
qed

lemma loop_dni_fst: "fst (loop_dni dnis df_cat i (y, fig)) = y + length dnis"
  by (induction dnis arbitrary: y fig) simp_all

lemma loop_dni_set:
  "t \<in> set (snd (loop_dni dnis df_cat i (y, fig))) \<longleftrightarrow>
     t \<in> set fig \<or>
     (\<exists>k<length dnis. \<exists>c\<in>set df_cat. DNI c = dnis ! k
        \<and> t = \<lparr>traza_contrato = c, traza_y = y + k, traza_color = i mod 12\<rparr>)"
proof (induction dnis arbitrary: y fig)
  case Nil
  then show ?case by simp
next
  case (Cons d ds)
  have "t \<in> set (snd (loop_dni (d # ds) df_cat i (y, fig))) \<longleftrightarrow>
      (t \<in> set fig \<or> (\<exists>c\<in>set df_cat. DNI c = d
          \<and> t = \<lparr>traza_contrato = c, traza_y = y, traza_color = i mod 12\<rparr>))
      \<or> (\<exists>k<length ds. \<exists>c\<in>set df_cat. DNI c = ds ! k
          \<and> t = \<lparr>traza_contrato = c, traza_y = y + 1 + k, traza_color = i mod 12\<rparr>)"
    by (simp add: Cons.IH) blast
  also have "\<dots> \<longleftrightarrow> t \<in> set fig \<or>
     (\<exists>k<length (d # ds). \<exists>c\<in>set df_cat. DNI c = (d # ds) ! k
        \<and> t = \<lparr>traza_contrato = c, traza_y = y + k, traza_color = i mod 12\<rparr>)"
    unfolding ex_less_Cons[where P = "\<lambda>k. \<exists>c\<in>set df_cat. DNI c = (d # ds) ! k
        \<and> t = \<lparr>traza_contrato = c, traza_y = y + k, traza_color = i mod 12\<rparr>"]
    by simp
  finally show ?case .
qed

lemma en_bloque_0:
  "en_bloque df ((i, cat) # rest) y 0 t \<longleftrightarrow>
     (\<exists>k<length (personas df cat). \<exists>c\<in>set (de_categoria df cat).
        DNI c = personas df cat ! k
        \<and> t = \<lparr>traza_contrato = c, traza_y = y + k, traza_color = i mod 12\<rparr>)"
  by (simp add: en_bloque_def inicio_def)

lemma en_bloque_Suc:
  "en_bloque df ((i, cat) # rest) y (Suc j) t \<longleftrightarrow> en_bloque df rest (y + alto df cat) j t"
  by (simp add: en_bloque_def inicio_def add.assoc)

lemma loop_dni_pair:
  "loop_dni dnis df_cat i (y, fig) = (y + length dnis, snd (loop_dni dnis df_cat i (y, fig)))"
  using loop_dni_fst[of dnis df_cat i y fig] by (cases "loop_dni dnis df_cat i (y, fig)") simp

lemma loop_categorias_Cons_empty:
  "de_categoria df cat = [] \<Longrightarrow>
     loop_categorias ((i, cat) # rest) df (y, pos, fig) = loop_categorias rest df (y, pos, fig)"
  by simp

lemma loop_categorias_Cons_nonempty:
  "de_categoria df cat \<noteq> [] \<Longrightarrow>
     loop_categorias ((i, cat) # rest) df (y, pos, fig)
       = loop_categorias rest df
           (y + alto df cat, AList.update cat y pos,
            snd (loop_dni (personas df cat) (de_categoria df cat) i (y, fig)))"
  by (subst loop_categorias.simps, subst loop_dni_pair)
    (simp add: Let_def alto_def personas_def)

lemma loop_categorias_fst:
  "fst (loop_categorias ics df (y, pos, fig)) = y + sum_list (map (alto df) (map snd ics))"
proof (induction ics arbitrary: y pos fig)
  case Nil
  then show ?case by simp
next
  case (Cons a ics)
  obtain i cat where a: "a = (i, cat)" by (cases a) auto
  show ?case
  proof (cases "de_categoria df cat = []")
    case True
    then show ?thesis
      unfolding a loop_categorias_Cons_empty[OF True] by (simp add: Cons.IH alto_def)
  next
    case False
    show ?thesis
      unfolding a loop_categorias_Cons_nonempty[OF False] by (simp add: Cons.IH)
  qed
qed

lemma loop_categorias_set:
  "t \<in> set (snd (snd (loop_categorias ics df (y, pos, fig)))) \<longleftrightarrow>
     t \<in> set fig \<or> (\<exists>j<length ics. en_bloque df ics y j t)"
proof (induction ics arbitrary: y pos fig)
  case Nil
  then show ?case by simp
next
  case (Cons a ics)
  obtain i cat where a: "a = (i, cat)" by (cases a) auto
  have split: "(\<exists>j<length ((i, cat) # ics). en_bloque df ((i, cat) # ics) y j t) \<longleftrightarrow>
      en_bloque df ((i, cat) # ics) y 0 t \<or> (\<exists>j<length ics. en_bloque df ics (y + alto df cat) j t)"
    unfolding ex_less_Cons[where P = "\<lambda>j. en_bloque df ((i, cat) # ics) y j t"]
    by (simp only: en_bloque_Suc)
  show ?case
  proof (cases "de_categoria df cat = []")
    case True
    have "\<not> en_bloque df ((i, cat) # ics) y 0 t" by (simp add: en_bloque_0 True)
    moreover have "alto df cat = 0" by (simp add: alto_def True)
    ultimately show ?thesis
      unfolding a loop_categorias_Cons_empty[OF True] split by (simp add: Cons.IH)
  next
    case False
    show ?thesis
      unfolding a loop_categorias_Cons_nonempty[OF False] split Cons.IH loop_dni_set en_bloque_0
      by blast
  qed
qed

lemma de_categoria_isin':
  "c \<in> set cats \<Longrightarrow> de_categoria (isin df cats) c = de_categoria df c"
  by (auto simp add: de_categoria_def isin_def intro: filter_cong)

lemma alto_isin: "c \<in> set cats \<Longrightarrow> alto (isin df cats) c = alto df c"
  by (simp add: alto_def personas_def de_categoria_isin')

lemma inicio_isin: "inicio (isin df cats) cats j = inicio df cats j"
proof -
  have "map (alto (isin df cats)) (take j cats) = map (alto df) (take j cats)"
    by (rule map_cong[OF refl]) (auto dest: in_set_takeD intro: alto_isin)
  then show ?thesis by (simp only: inicio_def)
qed

lemma trazas_loop:
  assumes "create_timeline_chart (Some df) cats = Some fig"
  shows "trazas fig
      = snd (snd (loop_categorias (List.enumerate 0 cats) (isin df cats) (0, [], [])))"
proof -
  obtain y pos fg where l: "loop_categorias (List.enumerate 0 cats) (isin df cats) (0, [], [])
      = (y, pos, fg)"
    by (cases "loop_categorias (List.enumerate 0 cats) (isin df cats) (0, [], [])") auto
  from assms show ?thesis
    by (auto simp add: create_timeline_chart_def Let_def l split: if_splits)
qed

lemma trazas_char:
  assumes "create_timeline_chart (Some df) cats = Some fig"
  shows "t \<in> set (trazas fig) \<longleftrightarrow>
     (\<exists>j<length cats. \<exists>k<length (personas df (cats ! j)). \<exists>c\<in>set (de_categoria df (cats ! j)).
        DNI c = personas df (cats ! j) ! k
        \<and> t = \<lparr>traza_contrato = c, traza_y = inicio df cats j + k, traza_color = j mod 12\<rparr>)"
proof -
  have e: "en_bloque (isin df cats) (List.enumerate 0 cats) 0 j t \<longleftrightarrow>
      (\<exists>k<length (personas df (cats ! j)). \<exists>c\<in>set (de_categoria df (cats ! j)).
        DNI c = personas df (cats ! j) ! k
        \<and> t = \<lparr>traza_contrato = c, traza_y = inicio df cats j + k, traza_color = j mod 12\<rparr>)"
    if "j < length cats" for j
  proof -
    from that have m: "cats ! j \<in> set cats" by simp
    show ?thesis
      using that
      by (simp add: en_bloque_def nth_enumerate_eq inicio_isin personas_def
          de_categoria_isin'[OF m])
  qed
  have "t \<in> set (trazas fig) \<longleftrightarrow>
      (\<exists>j<length cats. en_bloque (isin df cats) (List.enumerate 0 cats) 0 j t)"
    by (simp add: trazas_loop[OF assms] loop_categorias_set)
  also have "\<dots> \<longleftrightarrow> (\<exists>j<length cats. \<exists>k<length (personas df (cats ! j)).
        \<exists>c\<in>set (de_categoria df (cats ! j)). DNI c = personas df (cats ! j) ! k
        \<and> t = \<lparr>traza_contrato = c, traza_y = inicio df cats j + k, traza_color = j mod 12\<rparr>)"
    using e by blast
  finally show ?thesis .
qed

lemma inicio_Suc:
  "j < length cats \<Longrightarrow> inicio df cats (Suc j) = inicio df cats j + alto df (cats ! j)"
  by (simp add: inicio_def take_Suc_conv_app_nth)

lemma inicio_mono: "i \<le> j \<Longrightarrow> inicio df cats i \<le> inicio df cats j"
proof -
  assume "i \<le> j"
  then obtain d where j: "j = i + d" using le_Suc_ex by blast
  show ?thesis unfolding j inicio_def by (simp add: take_add)
qed

lemma inicio_next:
  assumes "i < j" "i < length cats"
  shows "inicio df cats i + alto df (cats ! i) \<le> inicio df cats j"
  using inicio_mono[of "Suc i" j df cats] inicio_Suc[OF assms(2), of df] assms(1) by simp

text \<open>What a bar of the figure is: its block \<open>j\<close>, its person \<open>k\<close> and its contract.\<close>

lemma traza_coords:
  assumes "create_timeline_chart (Some df) cats = Some fig" "t \<in> set (trazas fig)"
  obtains j k where "j < length cats" "k < length (personas df (cats ! j))"
    "CATEGORIA (traza_contrato t) = cats ! j" "DNI (traza_contrato t) = personas df (cats ! j) ! k"
    "traza_y t = inicio df cats j + k" "de_categoria df (cats ! j) \<noteq> []"
proof -
  from assms(2) obtain j k c where "j < length cats" "k < length (personas df (cats ! j))"
    "c \<in> set (de_categoria df (cats ! j))" "DNI c = personas df (cats ! j) ! k"
    "t = \<lparr>traza_contrato = c, traza_y = inicio df cats j + k, traza_color = j mod 12\<rparr>"
    unfolding trazas_char[OF assms(1)] by blast
  moreover from this(3) have "de_categoria df (cats ! j) \<noteq> []" "CATEGORIA c = cats ! j"
    by (auto simp add: de_categoria_def filter_empty_conv)
  ultimately show ?thesis by (intro that[of j k]) simp_all
qed

lemma bloques_separados:
  assumes "i < j" "i < length cats" "k < length (personas df (cats ! i))"
    "de_categoria df (cats ! i) \<noteq> []"
  shows "inicio df cats i + k + 3 \<le> inicio df cats j + k'"
proof -
  have "inicio df cats i + (length (personas df (cats ! i)) + 2) \<le> inicio df cats j"
    using inicio_next[OF assms(1,2), of df] assms(4) by (simp add: alto_def)
  with assms(3) show ?thesis by linarith
qed

lemma traza_existe:
  assumes f: "create_timeline_chart (Some df) cats = Some fig"
    and "j < length cats" "k < length (personas df (cats ! j))"
  shows "\<exists>t\<in>set (trazas fig). CATEGORIA (traza_contrato t) = cats ! j
      \<and> DNI (traza_contrato t) = personas df (cats ! j) ! k
      \<and> traza_y t = inicio df cats j + k"
proof -
  have "personas df (cats ! j) ! k \<in> set (personas df (cats ! j))" using assms(3) by simp
  then obtain c where c: "c \<in> set (de_categoria df (cats ! j))"
    "DNI c = personas df (cats ! j) ! k"
    by (auto simp add: personas_def)
  define t where "t = \<lparr>traza_contrato = c, traza_y = inicio df cats j + k,
    traza_color = j mod 12\<rparr>"
  have "t \<in> set (trazas fig)"
    unfolding trazas_char[OF f] t_def using assms(2,3) c by blast
  moreover have "CATEGORIA c = cats ! j" using c(1) by (simp add: de_categoria_def)
  ultimately show ?thesis using c(2) by (intro bexI[of _ t]) (simp_all add: t_def)
qed

lemma misma_fila:
  assumes f: "create_timeline_chart (Some df) cats = Some fig" and d: "distinct cats"
    and t1: "t1 \<in> set (trazas fig)" and t2: "t2 \<in> set (trazas fig)"
  shows "traza_y t1 = traza_y t2 \<longleftrightarrow>
      CATEGORIA (traza_contrato t1) = CATEGORIA (traza_contrato t2)
      \<and> DNI (traza_contrato t1) = DNI (traza_contrato t2)"
proof -
  from traza_coords[OF f t1] obtain j1 k1 where a: "j1 < length cats"
    "k1 < length (personas df (cats ! j1))" "CATEGORIA (traza_contrato t1) = cats ! j1"
    "DNI (traza_contrato t1) = personas df (cats ! j1) ! k1"
    "traza_y t1 = inicio df cats j1 + k1" "de_categoria df (cats ! j1) \<noteq> []" by blast
  from traza_coords[OF f t2] obtain j2 k2 where b: "j2 < length cats"
    "k2 < length (personas df (cats ! j2))" "CATEGORIA (traza_contrato t2) = cats ! j2"
    "DNI (traza_contrato t2) = personas df (cats ! j2) ! k2"
    "traza_y t2 = inicio df cats j2 + k2" "de_categoria df (cats ! j2) \<noteq> []" by blast
  have cat: "cats ! j1 = cats ! j2 \<longleftrightarrow> j1 = j2"
    using d a(1) b(1) by (simp add: nth_eq_iff_index_eq)
  have per: "personas df (cats ! j1) ! k1 = personas df (cats ! j1) ! k2 \<longleftrightarrow> k1 = k2"
    if "j1 = j2"
    using that a(2) b(2) by (simp add: nth_eq_iff_index_eq personas_def)
  show ?thesis
  proof (cases "j1 = j2")
    case True
    with per a b show ?thesis by auto
  next
    case False
    then consider "j1 < j2" | "j2 < j1" by linarith
    then have "traza_y t1 \<noteq> traza_y t2"
    proof cases
      case 1
      from bloques_separados[OF 1 a(1,2,6), of k2] show ?thesis by (simp add: a(5) b(5))
    next
      case 2
      from bloques_separados[OF 2 b(1,2,6), of k1] show ?thesis by (simp add: a(5) b(5))
    qed
    with False cat a(3) b(3) show ?thesis by simp
  qed
qed

lemma filas_de_categoria:
  assumes f: "create_timeline_chart (Some df) cats = Some fig" and d: "distinct cats"
    and j: "j < length cats"
  shows "traza_y ` {t \<in> set (trazas fig). CATEGORIA (traza_contrato t) = cats ! j}
      = {inicio df cats j ..< inicio df cats j + length (personas df (cats ! j))}"
proof (intro equalityI subsetI)
  fix y assume "y \<in> traza_y ` {t \<in> set (trazas fig). CATEGORIA (traza_contrato t) = cats ! j}"
  then obtain t where t: "t \<in> set (trazas fig)" "CATEGORIA (traza_contrato t) = cats ! j"
    "y = traza_y t" by blast
  from traza_coords[OF f t(1)] obtain j' k where a: "j' < length cats"
    "k < length (personas df (cats ! j'))" "CATEGORIA (traza_contrato t) = cats ! j'"
    "traza_y t = inicio df cats j' + k" by blast
  have "j' = j" using d a(1,3) j t(2) by (simp add: nth_eq_iff_index_eq)
  with a t(3) show "y \<in> {inicio df cats j ..< inicio df cats j + length (personas df (cats ! j))}"
    by simp
next
  fix y assume "y \<in> {inicio df cats j ..< inicio df cats j + length (personas df (cats ! j))}"
  then obtain k where k: "k < length (personas df (cats ! j))" "y = inicio df cats j + k"
    by (metis atLeastLessThan_iff le_Suc_ex nat_add_left_cancel_less)
  from traza_existe[OF f j k(1)] k(2)
  show "y \<in> traza_y ` {t \<in> set (trazas fig). CATEGORIA (traza_contrato t) = cats ! j}"
    by force
qed

lemma contrato_tiene_traza:
  assumes f: "create_timeline_chart (Some df) cats = Some fig" and c: "c \<in> set (isin df cats)"
  shows "\<exists>t\<in>set (trazas fig). traza_contrato t = c"
proof -
  from c have m: "c \<in> set df" "CATEGORIA c \<in> set cats" by (simp_all add: isin_def)
  then obtain j where j: "j < length cats" "cats ! j = CATEGORIA c"
    by (auto simp add: in_set_conv_nth)
  have cj: "c \<in> set (de_categoria df (cats ! j))" using m(1) j(2) by (simp add: de_categoria_def)
  then have "DNI c \<in> set (personas df (cats ! j))" by (simp add: personas_def)
  then obtain k where k: "k < length (personas df (cats ! j))" "personas df (cats ! j) ! k = DNI c"
    by (auto simp add: in_set_conv_nth)
  define t where "t = \<lparr>traza_contrato = c, traza_y = inicio df cats j + k,
    traza_color = j mod 12\<rparr>"
  have "t \<in> set (trazas fig)"
    unfolding trazas_char[OF f] t_def using j(1) k cj by force
  then show ?thesis by (intro bexI[of _ t]) (simp_all add: t_def)
qed

text \<open>
  Claim C2, as stated, fails: two different contracts of one person in one category are
  both drawn at row 0, and the position has advanced by one row only (the lines of the
  years reach up to 3 = 1 + 2).
\<close>

theorem row_uniqueness_counterexample:
  "create_timeline_chart
     (Some [\<lparr>DNI = ''000000001'', CATEGORIA = ''A'', Falta = (2020, 1, 10), Fbaja = (2020, 3, 5),
             Duracion = 55\<rparr>,
            \<lparr>DNI = ''000000001'', CATEGORIA = ''A'', Falta = (2021, 2, 1), Fbaja = (2021, 2, 20),
             Duracion = 19\<rparr>]) [''A'']
   = Some \<lparr>trazas =
             [\<lparr>traza_contrato =
                 \<lparr>DNI = ''000000001'', CATEGORIA = ''A'', Falta = (2020, 1, 10),
                  Fbaja = (2020, 3, 5), Duracion = 55\<rparr>,
               traza_y = 0, traza_color = 0\<rparr>,
              \<lparr>traza_contrato =
                 \<lparr>DNI = ''000000001'', CATEGORIA = ''A'', Falta = (2021, 2, 1),
                  Fbaja = (2021, 2, 20), Duracion = 19\<rparr>,
               traza_y = 0, traza_color = 0\<rparr>],
           lineas_anuales = [((2021, 1, 1), 3)], height = 600, ticktext = [''A'']\<rparr>
   \<and> \<lparr>DNI = ''000000001'', CATEGORIA = ''A'', Falta = (2020, 1, 10), Fbaja = (2020, 3, 5),
       Duracion = 55\<rparr>
     \<noteq> \<lparr>DNI = ''000000001'', CATEGORIA = ''A'', Falta = (2021, 2, 1), Fbaja = (2021, 2, 20),
         Duracion = 19\<rparr>"
proof -
  have "create_timeline_chart
     (Some [\<lparr>DNI = ''000000001'', CATEGORIA = ''A'', Falta = (2020, 1, 10), Fbaja = (2020, 3, 5),
             Duracion = 55\<rparr>,
            \<lparr>DNI = ''000000001'', CATEGORIA = ''A'', Falta = (2021, 2, 1), Fbaja = (2021, 2, 20),
             Duracion = 19\<rparr>]) [''A'']
   = Some \<lparr>trazas =
             [\<lparr>traza_contrato =
                 \<lparr>DNI = ''000000001'', CATEGORIA = ''A'', Falta = (2020, 1, 10),
                  Fbaja = (2020, 3, 5), Duracion = 55\<rparr>,
               traza_y = 0, traza_color = 0\<rparr>,
              \<lparr>traza_contrato =
                 \<lparr>DNI = ''000000001'', CATEGORIA = ''A'', Falta = (2021, 2, 1),
                  Fbaja = (2021, 2, 20), Duracion = 19\<rparr>,
               traza_y = 0, traza_color = 0\<rparr>],
           lineas_anuales = [((2021, 1, 1), 3)], height = 600, ticktext = [''A'']\<rparr>"
    by code_simp
  then show ?thesis by simp
qed

text \<open>
  Claim C2, amended. With a selection without repetition, two bars of the figure are on
  the same row exactly when their contracts have the same category and the same person
  (so contracts of different persons, or of different categories, never share a row);
  every contract of a selected category has a bar; and the rows of a category are
  consecutive, one per person of the category: the position advances once per person.
\<close>

theorem one_row_per_person:
  assumes "create_timeline_chart (Some df) cats = Some fig" "distinct cats"
  shows "(\<forall>t1\<in>set (trazas fig). \<forall>t2\<in>set (trazas fig).
            traza_y t1 = traza_y t2 \<longleftrightarrow>
              CATEGORIA (traza_contrato t1) = CATEGORIA (traza_contrato t2)
              \<and> DNI (traza_contrato t1) = DNI (traza_contrato t2))
       \<and> (\<forall>c\<in>set (isin df cats). \<exists>t\<in>set (trazas fig). traza_contrato t = c)
       \<and> (\<forall>j<length cats.
            traza_y ` {t \<in> set (trazas fig). CATEGORIA (traza_contrato t) = cats ! j}
              = {inicio df cats j ..< inicio df cats j + length (personas df (cats ! j))})"
  using misma_fila[OF assms] contrato_tiene_traza[OF assms(1)] filas_de_categoria[OF assms]
  by (intro conjI ballI allI impI)

theorem one_row_per_person_witness:
  "create_timeline_chart
     (Some [\<lparr>DNI = ''000000001'', CATEGORIA = ''A'', Falta = (2020, 1, 10), Fbaja = (2020, 3, 5),
             Duracion = 55\<rparr>,
            \<lparr>DNI = ''000000002'', CATEGORIA = ''A'', Falta = (2020, 2, 1), Fbaja = (2020, 2, 20),
             Duracion = 19\<rparr>,
            \<lparr>DNI = ''000000001'', CATEGORIA = ''A'', Falta = (2021, 2, 1), Fbaja = (2021, 2, 20),
             Duracion = 19\<rparr>]) [''A'']
   = Some \<lparr>trazas =
             [\<lparr>traza_contrato =
                 \<lparr>DNI = ''000000001'', CATEGORIA = ''A'', Falta = (2020, 1, 10),
                  Fbaja = (2020, 3, 5), Duracion = 55\<rparr>,
               traza_y = 0, traza_color = 0\<rparr>,
              \<lparr>traza_contrato =
                 \<lparr>DNI = ''000000001'', CATEGORIA = ''A'', Falta = (2021, 2, 1),
                  Fbaja = (2021, 2, 20), Duracion = 19\<rparr>,
               traza_y = 0, traza_color = 0\<rparr>,
              \<lparr>traza_contrato =
                 \<lparr>DNI = ''000000002'', CATEGORIA = ''A'', Falta = (2020, 2, 1),
                  Fbaja = (2020, 2, 20), Duracion = 19\<rparr>,
               traza_y = 1, traza_color = 0\<rparr>],
           lineas_anuales = [((2021, 1, 1), 4)], height = 600, ticktext = [''A'']\<rparr>
   \<and> distinct [''A'']
   \<and> traza_y ` {t \<in> set
          [\<lparr>traza_contrato =
              \<lparr>DNI = ''000000001'', CATEGORIA = ''A'', Falta = (2020, 1, 10),
               Fbaja = (2020, 3, 5), Duracion = 55\<rparr>,
            traza_y = 0, traza_color = 0\<rparr>,
           \<lparr>traza_contrato =
              \<lparr>DNI = ''000000001'', CATEGORIA = ''A'', Falta = (2021, 2, 1),
               Fbaja = (2021, 2, 20), Duracion = 19\<rparr>,
            traza_y = 0, traza_color = 0\<rparr>,
           \<lparr>traza_contrato =
              \<lparr>DNI = ''000000002'', CATEGORIA = ''A'', Falta = (2020, 2, 1),
               Fbaja = (2020, 2, 20), Duracion = 19\<rparr>,
            traza_y = 1, traza_color = 0\<rparr>]. CATEGORIA (traza_contrato t) = ''A''}
       = {0 ..< 2}"
proof -
  define df0 where "df0 =
    [\<lparr>DNI = ''000000001'', CATEGORIA = ''A'', Falta = (2020, 1, 10), Fbaja = (2020, 3, 5),
      Duracion = 55\<rparr>,
     \<lparr>DNI = ''000000002'', CATEGORIA = ''A'', Falta = (2020, 2, 1), Fbaja = (2020, 2, 20),
      Duracion = 19\<rparr>,
     \<lparr>DNI = ''000000001'', CATEGORIA = ''A'', Falta = (2021, 2, 1), Fbaja = (2021, 2, 20),
      Duracion = 19\<rparr>]"
  define fig0 where "fig0 = \<lparr>trazas =
             [\<lparr>traza_contrato =
                 \<lparr>DNI = ''000000001'', CATEGORIA = ''A'', Falta = (2020, 1, 10),
                  Fbaja = (2020, 3, 5), Duracion = 55\<rparr>,
               traza_y = 0, traza_color = 0\<rparr>,
              \<lparr>traza_contrato =
                 \<lparr>DNI = ''000000001'', CATEGORIA = ''A'', Falta = (2021, 2, 1),
                  Fbaja = (2021, 2, 20), Duracion = 19\<rparr>,
               traza_y = 0, traza_color = 0\<rparr>,
              \<lparr>traza_contrato =
                 \<lparr>DNI = ''000000002'', CATEGORIA = ''A'', Falta = (2020, 2, 1),
                  Fbaja = (2020, 2, 20), Duracion = 19\<rparr>,
               traza_y = 1, traza_color = 0\<rparr>],
           lineas_anuales = [((2021, 1, 1), 4)], height = 600, ticktext = [''A'']\<rparr>"
  have f: "create_timeline_chart (Some df0) [''A''] = Some fig0"
    unfolding df0_def fig0_def by code_simp
  have d: "distinct [''A'']" by simp
  have p: "length (personas df0 ''A'') = 2" unfolding df0_def by code_simp
  have i: "inicio df0 [''A''] 0 = 0" by (simp add: inicio_def)
  from one_row_per_person[OF f d]
  have "traza_y ` {t \<in> set (trazas fig0). CATEGORIA (traza_contrato t) = [''A''] ! 0}
      = {inicio df0 [''A''] 0 ..< inicio df0 [''A''] 0 + length (personas df0 ([''A''] ! 0))}"
    by simp
  then have "traza_y ` {t \<in> set (trazas fig0). CATEGORIA (traza_contrato t) = ''A''} = {0 ..< 2}"
    by (simp add: p i numeral_2_eq_2)
  with f d show ?thesis unfolding df0_def fig0_def by (simp add: numeral_2_eq_2)
qed

text \<open>
  Claim C6. With a selection without repetition: a bar of a category that comes earlier
  in the selection is at least three rows below every bar of a later category (two blank
  rows lie between the blocks); the rows of the \<open>j\<close>-th category start at
  \<open>inicio df cats j\<close>, which is 0 for the first category and grows, from one category to
  the next, by nothing for a category without contracts and by its persons plus 2
  otherwise; and the first category that has contracts has a bar at row 0.
\<close>

theorem block_ordering:
  assumes f: "create_timeline_chart (Some df) cats = Some fig" and d: "distinct cats"
  shows "(\<forall>t1\<in>set (trazas fig). \<forall>t2\<in>set (trazas fig). \<forall>i j.
            i < j \<and> j < length cats \<and> CATEGORIA (traza_contrato t1) = cats ! i
              \<and> CATEGORIA (traza_contrato t2) = cats ! j
            \<longrightarrow> traza_y t1 + 3 \<le> traza_y t2)
       \<and> (\<forall>t\<in>set (trazas fig). \<forall>j<length cats.
            CATEGORIA (traza_contrato t) = cats ! j
            \<longrightarrow> inicio df cats j \<le> traza_y t
                \<and> traza_y t < inicio df cats j + length (personas df (cats ! j)))
       \<and> inicio df cats 0 = 0
       \<and> (\<forall>j<length cats.
            inicio df cats (Suc j)
              = inicio df cats j
                + (if de_categoria df (cats ! j) = [] then 0
                   else length (personas df (cats ! j)) + 2))
       \<and> (\<forall>j<length cats.
            de_categoria df (cats ! j) \<noteq> [] \<and> (\<forall>i<j. de_categoria df (cats ! i) = [])
            \<longrightarrow> (\<exists>t\<in>set (trazas fig). CATEGORIA (traza_contrato t) = cats ! j \<and> traza_y t = 0))"
proof -
  have p1: "traza_y t1 + 3 \<le> traza_y t2"
    if t1: "t1 \<in> set (trazas fig)" and t2: "t2 \<in> set (trazas fig)"
      and h: "i < j" "j < length cats" "CATEGORIA (traza_contrato t1) = cats ! i"
        "CATEGORIA (traza_contrato t2) = cats ! j" for t1 t2 i j
  proof -
    from traza_coords[OF f t1] obtain j1 k1 where a: "j1 < length cats"
      "k1 < length (personas df (cats ! j1))" "CATEGORIA (traza_contrato t1) = cats ! j1"
      "traza_y t1 = inicio df cats j1 + k1" "de_categoria df (cats ! j1) \<noteq> []" by blast
    from traza_coords[OF f t2] obtain j2 k2 where b: "j2 < length cats"
      "CATEGORIA (traza_contrato t2) = cats ! j2" "traza_y t2 = inicio df cats j2 + k2" by blast
    have "j1 = i" using d a(1,3) h(1,2,3) by (simp add: nth_eq_iff_index_eq)
    moreover have "j2 = j" using d b(1,2) h(2,4) by (simp add: nth_eq_iff_index_eq)
    ultimately show ?thesis
      using bloques_separados[OF _ a(1,2,5), of j2 k2] h(1) by (simp add: a(4) b(3))
  qed
  have p2: "inicio df cats j \<le> traza_y t
      \<and> traza_y t < inicio df cats j + length (personas df (cats ! j))"
    if t: "t \<in> set (trazas fig)" and h: "j < length cats" "CATEGORIA (traza_contrato t) = cats ! j"
    for t j
  proof -
    from traza_coords[OF f t] obtain j' k where a: "j' < length cats"
      "k < length (personas df (cats ! j'))" "CATEGORIA (traza_contrato t) = cats ! j'"
      "traza_y t = inicio df cats j' + k" by blast
    have "j' = j" using d a(1,3) h by (simp add: nth_eq_iff_index_eq)
    with a show ?thesis by simp
  qed
  have p3: "inicio df cats 0 = 0" by (simp add: inicio_def)
  have p4: "inicio df cats (Suc j) = inicio df cats j
      + (if de_categoria df (cats ! j) = [] then 0 else length (personas df (cats ! j)) + 2)"
    if "j < length cats" for j
    using inicio_Suc[OF that, of df] by (simp add: alto_def)
  have p5: "\<exists>t\<in>set (trazas fig). CATEGORIA (traza_contrato t) = cats ! j \<and> traza_y t = 0"
    if h: "j < length cats" "de_categoria df (cats ! j) \<noteq> []"
      "\<forall>i<j. de_categoria df (cats ! i) = []" for j
  proof -
    have "alto df c = 0" if "c \<in> set (take j cats)" for c
    proof -
      from that obtain i where "i < j" "i < length cats" "c = cats ! i"
        by (auto simp add: in_set_conv_nth)
      with h(3) show ?thesis by (simp add: alto_def)
    qed
    then have z: "inicio df cats j = 0" by (simp add: inicio_def)
    have "personas df (cats ! j) \<noteq> []" using h(2) by (simp add: personas_def unique_def)
    then have "0 < length (personas df (cats ! j))" by simp
    from traza_existe[OF f h(1) this] z show ?thesis by auto
  qed
  from p1 p2 p3 p4 p5 show ?thesis by (intro conjI ballI allI impI) blast+
qed

theorem block_ordering_witness:
  "create_timeline_chart
     (Some [\<lparr>DNI = ''000000001'', CATEGORIA = ''A'', Falta = (2020, 1, 10), Fbaja = (2020, 3, 5),
             Duracion = 55\<rparr>,
            \<lparr>DNI = ''000000002'', CATEGORIA = ''A'', Falta = (2020, 2, 1), Fbaja = (2020, 2, 20),
             Duracion = 19\<rparr>,
            \<lparr>DNI = ''000000001'', CATEGORIA = ''B'', Falta = (2020, 5, 1), Fbaja = (2020, 6, 20),
             Duracion = 50\<rparr>]) [''A'', ''C'', ''B'']
   = Some \<lparr>trazas =
             [\<lparr>traza_contrato =
                 \<lparr>DNI = ''000000001'', CATEGORIA = ''A'', Falta = (2020, 1, 10),
                  Fbaja = (2020, 3, 5), Duracion = 55\<rparr>,
               traza_y = 0, traza_color = 0\<rparr>,
              \<lparr>traza_contrato =
                 \<lparr>DNI = ''000000002'', CATEGORIA = ''A'', Falta = (2020, 2, 1),
                  Fbaja = (2020, 2, 20), Duracion = 19\<rparr>,
               traza_y = 1, traza_color = 0\<rparr>,
              \<lparr>traza_contrato =
                 \<lparr>DNI = ''000000001'', CATEGORIA = ''B'', Falta = (2020, 5, 1),
                  Fbaja = (2020, 6, 20), Duracion = 50\<rparr>,
               traza_y = 4, traza_color = 2\<rparr>],
           lineas_anuales = [], height = 600, ticktext = [''A'', ''B'']\<rparr>
   \<and> distinct [''A'', ''C'', ''B'']
   \<and> traza_y \<lparr>traza_contrato =
                 \<lparr>DNI = ''000000002'', CATEGORIA = ''A'', Falta = (2020, 2, 1),
                  Fbaja = (2020, 2, 20), Duracion = 19\<rparr>,
               traza_y = 1, traza_color = 0\<rparr> + 3
       \<le> traza_y \<lparr>traza_contrato =
                 \<lparr>DNI = ''000000001'', CATEGORIA = ''B'', Falta = (2020, 5, 1),
                  Fbaja = (2020, 6, 20), Duracion = 50\<rparr>,
               traza_y = 4, traza_color = 2\<rparr>"
proof -
  define df0 where "df0 =
    [\<lparr>DNI = ''000000001'', CATEGORIA = ''A'', Falta = (2020, 1, 10), Fbaja = (2020, 3, 5),
      Duracion = 55\<rparr>,
     \<lparr>DNI = ''000000002'', CATEGORIA = ''A'', Falta = (2020, 2, 1), Fbaja = (2020, 2, 20),
      Duracion = 19\<rparr>,
     \<lparr>DNI = ''000000001'', CATEGORIA = ''B'', Falta = (2020, 5, 1), Fbaja = (2020, 6, 20),
      Duracion = 50\<rparr>]"
  define ta where "ta = \<lparr>traza_contrato =
                 \<lparr>DNI = ''000000002'', CATEGORIA = ''A'', Falta = (2020, 2, 1),
                  Fbaja = (2020, 2, 20), Duracion = 19\<rparr>,
               traza_y = 1, traza_color = 0\<rparr>"
  define tb where "tb = \<lparr>traza_contrato =
                 \<lparr>DNI = ''000000001'', CATEGORIA = ''B'', Falta = (2020, 5, 1),
                  Fbaja = (2020, 6, 20), Duracion = 50\<rparr>,
               traza_y = 4, traza_color = 2\<rparr>"
  define fig0 where "fig0 = \<lparr>trazas =
             [\<lparr>traza_contrato =
                 \<lparr>DNI = ''000000001'', CATEGORIA = ''A'', Falta = (2020, 1, 10),
                  Fbaja = (2020, 3, 5), Duracion = 55\<rparr>,
               traza_y = 0, traza_color = 0\<rparr>, ta, tb],
           lineas_anuales = [], height = 600, ticktext = [''A'', ''B'']\<rparr>"
  have f: "create_timeline_chart (Some df0) [''A'', ''C'', ''B''] = Some fig0"
    unfolding df0_def fig0_def ta_def tb_def by code_simp
  have d: "distinct [''A'', ''C'', ''B'']" by simp
  have m: "ta \<in> set (trazas fig0)" "tb \<in> set (trazas fig0)" by (simp_all add: fig0_def)
  from block_ordering[OF f d]
  have "\<forall>t1\<in>set (trazas fig0). \<forall>t2\<in>set (trazas fig0). \<forall>i j.
            i < j \<and> j < length [''A'', ''C'', ''B'']
              \<and> CATEGORIA (traza_contrato t1) = [''A'', ''C'', ''B''] ! i
              \<and> CATEGORIA (traza_contrato t2) = [''A'', ''C'', ''B''] ! j
            \<longrightarrow> traza_y t1 + 3 \<le> traza_y t2"
    by (rule conjunct1)
  from this[rule_format, OF m, of 0 2] have "traza_y ta + 3 \<le> traza_y tb"
    by (simp add: ta_def tb_def)
  with f d show ?thesis unfolding df0_def fig0_def ta_def tb_def by (intro conjI)
qed

end
